theory Spec2Isabelle
  imports Main "HOL-Library.Word"
begin

section \<open>Values and errors\<close>

text \<open>
  The validators of \<^verbatim>\<open>supervisor/validate.py\<close> receive decoded configuration data:
  \<^verbatim>\<open>None\<close>, booleans, integers, floats, strings, lists and dictionaries with string keys.
  A Python \<^verbatim>\<open>str\<close> is a sequence of code points; here it is a \<^typ>\<open>string\<close> whose
  characters are read as the code points U+0000 to U+00FF, so strings with code points
  above U+00FF are outside this model. A finite float is \<open>m * 2 ^ e\<close>.
\<close>

datatype pyfloat = Finite int int | Infinity bool | NaN

datatype pyval =
    VNone
  | VBool bool
  | VInt int
  | VFloat pyfloat
  | VStr string
  | VList "pyval list"
  | VDict "(string \<times> pyval) list"

text \<open>
  Every \<^verbatim>\<open>raise\<close> is a value. The constructors up to \<open>MultipleInvalid\<close> are the
  subclasses of \<^verbatim>\<open>vol.Invalid\<close>; \<open>Uncaught\<close> is an exception that is not a
  \<^verbatim>\<open>vol.Invalid\<close> and is caught by no validator (it names the Python exception).
\<close>

datatype error =
    Invalid string
  | CoerceInvalid
  | RangeInvalid
  | LengthInvalid
  | MatchInvalid
  | InInvalid
  | BooleanInvalid
  | UrlInvalid
  | ScalarInvalid
  | AnyInvalid
  | TypeInvalid
  | SequenceTypeInvalid
  | DictInvalid
  | RequiredFieldInvalid string
  | MultipleInvalid "error list"
  | Uncaught string

type_synonym validator = "pyval \<Rightarrow> error + pyval"

section \<open>Python built-ins used by the validators\<close>

subsection \<open>Character classes\<close>

definition is_digit :: "char \<Rightarrow> bool" where
  "is_digit c = ((0x30::nat) \<le> of_char c \<and> of_char c \<le> (0x39::nat))"

definition is_lower_hex :: "char \<Rightarrow> bool" where
  "is_lower_hex c = (is_digit c \<or> ((0x61::nat) \<le> of_char c \<and> of_char c \<le> (0x66::nat)))"

definition is_ascii_alpha :: "char \<Rightarrow> bool" where
  "is_ascii_alpha c =
     (((0x61::nat) \<le> of_char c \<and> of_char c \<le> (0x7A::nat))
      \<or> ((0x41::nat) \<le> of_char c \<and> of_char c \<le> (0x5A::nat)))"

definition digit_val :: "char \<Rightarrow> nat" where
  "digit_val c = of_char c - 48"

text \<open>
  \<^verbatim>\<open>\w\<close> of a \<^verbatim>\<open>str\<close> pattern: the alphanumeric code points and the underscore. Below
  U+0100 the alphanumerics are the ASCII letters and digits, U+00AA, U+00B2, U+00B3, U+00B5,
  U+00B9, U+00BA, U+00BC to U+00BE, and U+00C0 to U+00FF without U+00D7 and U+00F7.
\<close>

definition is_word :: "char \<Rightarrow> bool" where
  "is_word c = (is_ascii_alpha c \<or> is_digit c \<or> c = CHR ''_''
     \<or> of_char c \<in> set [0xAA, 0xB2, 0xB3, 0xB5, 0xB9, 0xBA, 0xBC, 0xBD, 0xBE :: nat]
     \<or> ((0xC0::nat) \<le> of_char c \<and> of_char c \<noteq> (0xD7::nat) \<and> of_char c \<noteq> (0xF7::nat)))"

text \<open>\<^verbatim>\<open>str.lower()\<close>, one code point at a time (below U+0100 it never changes the length).\<close>

definition lower_char :: "char \<Rightarrow> char" where
  "lower_char c =
     (let n = (of_char c :: nat)
      in if (0x41 \<le> n \<and> n \<le> 0x5A) \<or> (0xC0 \<le> n \<and> n \<le> 0xDE \<and> n \<noteq> 0xD7)
         then char_of (n + 32) else c)"

definition lower :: "string \<Rightarrow> string" where
  "lower s = map lower_char s"

definition startswith :: "string \<Rightarrow> string \<Rightarrow> bool" where
  "startswith s p = (take (length p) s = p)"

subsection \<open>\<^verbatim>\<open>int(x)\<close>\<close>

text \<open>
  \<^verbatim>\<open>int\<close> of a string: surrounding whitespace is dropped, then an optional sign and
  decimal digits, where single underscores may stand between digits. The whitespace that
  \<^verbatim>\<open>int\<close> accepts below U+0100 is tab, line feed, vertical tab, form feed, carriage return,
  space, U+0085 and U+00A0.
\<close>

definition int_space :: "char \<Rightarrow> bool" where
  "int_space c = (of_char c \<in> set [0x09, 0x0A, 0x0B, 0x0C, 0x0D, 0x20, 0x85, 0xA0 :: nat])"

fun digits_us :: "string \<Rightarrow> nat \<Rightarrow> nat option" where
  "digits_us [] acc = Some acc"
| "digits_us (c # cs) acc =
     (if is_digit c then digits_us cs (10 * acc + digit_val c)
      else if c = CHR ''_'' then
        (case cs of
           [] \<Rightarrow> None
         | d # ds \<Rightarrow> if is_digit d then digits_us ds (10 * acc + digit_val d) else None)
      else None)"

definition unsigned_of_str :: "string \<Rightarrow> nat option" where
  "unsigned_of_str s =
     (case s of
        [] \<Rightarrow> None
      | c # cs \<Rightarrow> if is_digit c then digits_us cs (digit_val c) else None)"

definition strip_int :: "string \<Rightarrow> string" where
  "strip_int s = rev (dropWhile int_space (rev (dropWhile int_space s)))"

definition int_of_str :: "string \<Rightarrow> int option" where
  "int_of_str s =
     (case strip_int s of
        [] \<Rightarrow> None
      | c # cs \<Rightarrow>
          if c = CHR ''-'' then map_option (\<lambda>n. - int n) (unsigned_of_str cs)
          else if c = CHR ''+'' then map_option int (unsigned_of_str cs)
          else map_option int (unsigned_of_str (c # cs)))"

text \<open>\<^verbatim>\<open>int\<close> of a float truncates towards zero.\<close>

definition trunc_float :: "int \<Rightarrow> int \<Rightarrow> int" where
  "trunc_float m e =
     (if 0 \<le> e then m * 2 ^ nat e
      else if 0 \<le> m then m div 2 ^ nat (- e)
      else - ((- m) div 2 ^ nat (- e)))"

text \<open>
  \<^verbatim>\<open>int(x)\<close>: \<open>Inr n\<close> is the integer; \<open>Inl\<close> names the exception
  (\<^verbatim>\<open>ValueError\<close>, \<^verbatim>\<open>TypeError\<close> or \<^verbatim>\<open>OverflowError\<close>).
\<close>

fun py_int :: "pyval \<Rightarrow> string + int" where
  "py_int (VInt n) = Inr n"
| "py_int (VBool b) = Inr (if b then 1 else 0)"
| "py_int (VStr s) = (case int_of_str s of None \<Rightarrow> Inl ''ValueError'' | Some n \<Rightarrow> Inr n)"
| "py_int (VFloat (Finite m e)) = Inr (trunc_float m e)"
| "py_int (VFloat (Infinity _)) = Inl ''OverflowError''"
| "py_int (VFloat NaN) = Inl ''ValueError''"
| "py_int VNone = Inl ''TypeError''"
| "py_int (VList _) = Inl ''TypeError''"
| "py_int (VDict _) = Inl ''TypeError''"

subsection \<open>Regular expressions\<close>

text \<open>
  The part of \<^verbatim>\<open>re\<close> that the patterns of \<^verbatim>\<open>validate.py\<close> use: \<^verbatim>\<open>^\<close>,
  \<^verbatim>\<open>$\<close> and \<^verbatim>\<open>\Z\<close>, a literal character, a greedy repetition of a character class (\<^verbatim>\<open>+\<close> is
  \<open>Rep p 1 None\<close>, \<^verbatim>\<open>{m,n}\<close> is \<open>Rep p m (Some n)\<close>), sequence, a greedy optional group
  \<^verbatim>\<open>(?:...)?\<close> and a named group \<^verbatim>\<open>(?P<name>...)\<close>.
\<close>

datatype regex =
    Bol
  | Eol
  | Eos
  | Lit char
  | Rep "char \<Rightarrow> bool" nat "nat option"
  | Cat regex regex
  | Opt regex
  | Grp string regex

text \<open>
  A state of the matcher is the unread rest of the subject and the groups captured so far.
  \<open>rmatch r s st\<close> lists every way in which \<open>r\<close> matches from \<open>st\<close> in the subject
  \<open>s\<close>, in the order in which the backtracking matcher of \<^verbatim>\<open>re\<close> tries them: a
  greedy repetition tries the longest run first, an optional group tries its body first.
  Without \<^verbatim>\<open>re.MULTILINE\<close>, \<^verbatim>\<open>^\<close> matches at the start of the subject only, and
  \<^verbatim>\<open>$\<close> at its end or before a line feed that ends it; \<^verbatim>\<open>\Z\<close> matches at the
  end only.
\<close>

type_synonym mstate = "string \<times> (string \<times> string) list"

fun rmatch :: "regex \<Rightarrow> string \<Rightarrow> mstate \<Rightarrow> mstate list" where
  "rmatch Bol s (rest, caps) = (if length rest = length s then [(rest, caps)] else [])"
| "rmatch Eol s (rest, caps) = (if rest = [] \<or> rest = [CHR 0x0A] then [(rest, caps)] else [])"
| "rmatch Eos s (rest, caps) = (if rest = [] then [(rest, caps)] else [])"
| "rmatch (Lit c) s (rest, caps) =
     (case rest of [] \<Rightarrow> [] | x # xs \<Rightarrow> if x = c then [(xs, caps)] else [])"
| "rmatch (Rep p lo hi) s (rest, caps) =
     (let run = length (takeWhile p rest);
          most = (case hi of None \<Rightarrow> run | Some h \<Rightarrow> min run h)
      in map (\<lambda>k. (drop k rest, caps)) (rev [lo..<Suc most]))"
| "rmatch (Cat a b) s st = concat (map (rmatch b s) (rmatch a s st))"
| "rmatch (Opt a) s st = rmatch a s st @ [st]"
| "rmatch (Grp name a) s (rest, caps) =
     map (\<lambda>(rest', caps'). (rest', (name, take (length rest - length rest') rest) # caps'))
       (rmatch a s (rest, caps))"

text \<open>
  \<^verbatim>\<open>pattern.match(s)\<close>: the first way to match from the start of \<open>s\<close>, as the groups
  it captured (the latest capture of a name first), or \<open>None\<close>.
\<close>

definition re_match :: "regex \<Rightarrow> string \<Rightarrow> (string \<times> string) list option" where
  "re_match r s = (case rmatch r s (s, []) of [] \<Rightarrow> None | (rest, caps) # _ \<Rightarrow> Some caps)"

text \<open>\<^verbatim>\<open>m.group(name)\<close>; \<open>None\<close> when the group took no part in the match.\<close>

definition group :: "(string \<times> string) list \<Rightarrow> string \<Rightarrow> string option" where
  "group caps name = map_of caps name"

subsection \<open>\<^verbatim>\<open>ipaddress.ip_address\<close>\<close>

text \<open>
  Modelled from the spec: \<^verbatim>\<open>ipaddress.ip_address\<close> (the "valid IPv4 or IPv6 literal
  address" of section 4.2) is a function of the Python library, not under \<^verbatim>\<open>src/\<close>. The
  definitions follow the parser of the \<^verbatim>\<open>ipaddress\<close> module of CPython 3.12: four decimal
  octets without leading zeros, or up to eight groups of at most four hex digits with one
  optional \<^verbatim>\<open>::\<close>, an optional dotted-quad tail and an optional \<^verbatim>\<open>%scope\<close>.
\<close>

text \<open>\<^verbatim>\<open>s.split(c)\<close>\<close>

fun split_on :: "char \<Rightarrow> string \<Rightarrow> string list" where
  "split_on c [] = [[]]"
| "split_on c (x # xs) =
     (if x = c then [] # split_on c xs
      else (case split_on c xs of [] \<Rightarrow> [[x]] | p # ps \<Rightarrow> (x # p) # ps))"

fun sequence_opt :: "'a option list \<Rightarrow> 'a list option" where
  "sequence_opt [] = Some []"
| "sequence_opt (None # _) = None"
| "sequence_opt (Some x # xs) = map_option ((#) x) (sequence_opt xs)"

definition decimal_val :: "string \<Rightarrow> nat" where
  "decimal_val s = foldl (\<lambda>acc c. 10 * acc + digit_val c) 0 s"

definition parse_octet :: "string \<Rightarrow> nat option" where
  "parse_octet octet_str =
     (if octet_str = [] then None
      else if \<not> list_all is_digit octet_str then None
      else if length octet_str > 3 then None
      else if octet_str \<noteq> ''0'' \<and> hd octet_str = CHR ''0'' then None
      else if decimal_val octet_str > 255 then None
      else Some (decimal_val octet_str))"

definition ipv4_int_from_string :: "string \<Rightarrow> nat option" where
  "ipv4_int_from_string ip_str =
     (if ip_str = [] then None
      else let octets = split_on CHR ''.'' ip_str
           in if length octets \<noteq> 4 then None
              else map_option (foldl (\<lambda>acc b. 256 * acc + b) 0)
                     (sequence_opt (map parse_octet octets)))"

definition IPv4Address :: "string \<Rightarrow> nat option" where
  "IPv4Address addr_str =
     (if CHR ''/'' \<in> set addr_str then None else ipv4_int_from_string addr_str)"

definition is_hex :: "char \<Rightarrow> bool" where
  "is_hex c = (is_lower_hex c \<or> ((0x41::nat) \<le> of_char c \<and> of_char c \<le> (0x46::nat)))"

definition hex_val :: "char \<Rightarrow> nat" where
  "hex_val c =
     (if is_digit c then of_char c - 0x30
      else if (0x61::nat) \<le> of_char c then of_char c - 0x57
      else of_char c - 0x37)"

definition parse_hextet :: "string \<Rightarrow> nat option" where
  "parse_hextet hextet_str =
     (if \<not> list_all is_hex hextet_str then None
      else if length hextet_str > 4 then None
      else Some (foldl (\<lambda>acc c. 16 * acc + hex_val c) 0 hextet_str))"

definition hexdigit :: "nat \<Rightarrow> char" where
  "hexdigit n = (if n < 10 then char_of (0x30 + n) else char_of (0x57 + n))"

text \<open>\<^verbatim>\<open>'%x' % n\<close> for \<open>n < 65536\<close>\<close>

definition hex4 :: "nat \<Rightarrow> string" where
  "hex4 n =
     (case dropWhile (\<lambda>c. c = CHR ''0'')
             (map (\<lambda>k. hexdigit ((n div 16 ^ k) mod 16)) [3, 2, 1, 0]) of
        [] \<Rightarrow> ''0''
      | ds \<Rightarrow> ds)"

definition ipv6_int_from_string :: "string \<Rightarrow> nat option" where
  "ipv6_int_from_string ip_str =
     (if ip_str = [] then None
      else let parts0 = split_on CHR '':'' ip_str
      in if length parts0 < 3 then None
      else
        case (if CHR ''.'' \<in> set (last parts0)
              then map_option
                     (\<lambda>ipv4_int. butlast parts0 @
                        [hex4 ((ipv4_int div 65536) mod 65536), hex4 (ipv4_int mod 65536)])
                     (IPv4Address (last parts0))
              else Some parts0) of
          None \<Rightarrow> None
        | Some parts \<Rightarrow>
            if length parts > 9 then None
            else
              let skips = filter (\<lambda>i. parts ! i = []) [1..<length parts - 1]
              in if length skips > 1 then None
              else
                (case skips of
                   skip_index # _ \<Rightarrow>
                     let hi0 = skip_index;
                         lo0 = length parts - skip_index - 1;
                         parts_hi = (if hd parts = [] then hi0 - 1 else hi0);
                         parts_lo = (if last parts = [] then lo0 - 1 else lo0)
                     in if hd parts = [] \<and> parts_hi \<noteq> 0 then None
                        else if last parts = [] \<and> parts_lo \<noteq> 0 then None
                        else if parts_hi + parts_lo > 7 then None
                        else
                          (case (sequence_opt (map parse_hextet (take parts_hi parts)),
                                 sequence_opt (map parse_hextet
                                   (drop (length parts - parts_lo) parts))) of
                             (Some his, Some los) \<Rightarrow>
                               Some (foldl (\<lambda>acc h. 65536 * acc + h)
                                       (foldl (\<lambda>acc h. 65536 * acc + h) 0 his
                                          * 65536 ^ (8 - (parts_hi + parts_lo))) los)
                           | _ \<Rightarrow> None)
                 | [] \<Rightarrow>
                     if length parts \<noteq> 8 then None
                     else if hd parts = [] then None
                     else if last parts = [] then None
                     else map_option (foldl (\<lambda>acc h. 65536 * acc + h) 0)
                            (sequence_opt (map parse_hextet parts))))"

text \<open>
  \<^verbatim>\<open>_split_scope_id\<close>: the text after the first \<^verbatim>\<open>%\<close> is the scope; it is not empty
  and holds no other \<^verbatim>\<open>%\<close>.
\<close>

definition split_scope_id :: "string \<Rightarrow> (string \<times> string option) option" where
  "split_scope_id ip_str =
     (let addr = takeWhile (\<lambda>c. c \<noteq> CHR ''%'') ip_str;
          tail = drop (length addr) ip_str
      in case tail of
           [] \<Rightarrow> Some (addr, None)
         | _ # scope_id \<Rightarrow>
             if scope_id = [] \<or> CHR ''%'' \<in> set scope_id then None
             else Some (addr, Some scope_id))"

definition IPv6Address :: "string \<Rightarrow> (nat \<times> string option) option" where
  "IPv6Address addr_str =
     (if CHR ''/'' \<in> set addr_str then None
      else case split_scope_id addr_str of
             None \<Rightarrow> None
           | Some (addr, scope_id) \<Rightarrow>
               map_option (\<lambda>ip. (ip, scope_id)) (ipv6_int_from_string addr))"

datatype ipaddr = V4 nat | V6 nat "string option"

text \<open>\<open>None\<close> is the \<^verbatim>\<open>ValueError\<close> of \<^verbatim>\<open>ip_address\<close>.\<close>

definition ip_address :: "string \<Rightarrow> ipaddr option" where
  "ip_address address =
     (case IPv4Address address of
        Some ip \<Rightarrow> Some (V4 ip)
      | None \<Rightarrow>
          (case IPv6Address address of
             Some (ip, scope_id) \<Rightarrow> Some (V6 ip scope_id)
           | None \<Rightarrow> None))"

subsection \<open>\<^verbatim>\<open>urllib.parse.urlparse\<close>\<close>

text \<open>
  Modelled from the spec: \<^verbatim>\<open>vol.Url\<close> ("a well-formed URL, scheme + host required",
  section 4.2) is a validator of the voluptuous library, not under \<^verbatim>\<open>src/\<close>; it calls
  \<^verbatim>\<open>urlparse\<close> and wants a scheme and a network location that are not empty. The
  definitions follow \<^verbatim>\<open>urlsplit\<close> of CPython 3.12, which yields both components. Its check
  of the network location under NFKC normalization rejects nothing below U+0100 and is
  left out.
\<close>

definition c0_control_or_space :: "char \<Rightarrow> bool" where
  "c0_control_or_space c = ((of_char c :: nat) \<le> 0x20)"

definition scheme_char :: "char \<Rightarrow> bool" where
  "scheme_char c = (is_ascii_alpha c \<or> is_digit c \<or> c \<in> set ''+-.'')"

text \<open>\<^verbatim>\<open>r"\Av[a-fA-F0-9]+\..+\Z"\<close>\<close>

definition ipvfuture_re :: regex where
  "ipvfuture_re =
     Cat Bol (Cat (Lit CHR ''v'') (Cat (Rep is_hex 1 None)
       (Cat (Lit CHR ''.'') (Cat (Rep (\<lambda>c. c \<noteq> CHR 0x0A) 1 None) Eos))))"

text \<open>\<open>True\<close> when \<^verbatim>\<open>_check_bracketed_host\<close> returns, \<open>False\<close> when it raises.\<close>

definition check_bracketed_host :: "string \<Rightarrow> bool" where
  "check_bracketed_host hostname =
     (if startswith hostname ''v'' then re_match ipvfuture_re hostname \<noteq> None
      else (case ip_address hostname of
              None \<Rightarrow> False
            | Some (V4 _) \<Rightarrow> False
            | Some (V6 _ _) \<Rightarrow> True))"

text \<open>\<^verbatim>\<open>s.rpartition(c)[2]\<close>: the text after the last \<open>c\<close>, or all of \<open>s\<close>.\<close>

definition after_last :: "char \<Rightarrow> string \<Rightarrow> string" where
  "after_last c s = rev (takeWhile (\<lambda>x. x \<noteq> c) (rev s))"

definition check_bracketed_netloc :: "string \<Rightarrow> bool" where
  "check_bracketed_netloc netloc =
     (let hostname_and_port = after_last CHR ''@'' netloc;
          before_bracket = takeWhile (\<lambda>c. c \<noteq> CHR ''['') hostname_and_port
      in if length before_bracket < length hostname_and_port then
           (let bracketed = drop (length before_bracket + 1) hostname_and_port;
                hostname = takeWhile (\<lambda>c. c \<noteq> CHR '']'') bracketed;
                port = drop (length hostname + 1) bracketed
            in if before_bracket \<noteq> [] then False
               else if port \<noteq> [] \<and> \<not> startswith port '':'' then False
               else check_bracketed_host hostname)
         else check_bracketed_host (takeWhile (\<lambda>c. c \<noteq> CHR '':'') hostname_and_port))"

text \<open>
  The scheme and the network location that \<^verbatim>\<open>urlsplit\<close> finds; \<open>None\<close> is its
  \<^verbatim>\<open>ValueError\<close>.
\<close>

definition urlsplit :: "string \<Rightarrow> (string \<times> string) option" where
  "urlsplit url0 =
     (let url1 = filter (\<lambda>c. c \<notin> set [CHR 0x09, CHR 0x0D, CHR 0x0A])
                   (dropWhile c0_control_or_space url0);
          i = length (takeWhile (\<lambda>c. c \<noteq> CHR '':'') url1);
          has_scheme = (i < length url1 \<and> 0 < i \<and> is_ascii_alpha (hd url1)
                          \<and> list_all scheme_char (take i url1));
          scheme = (if has_scheme then lower (take i url1) else []);
          url2 = (if has_scheme then drop (i + 1) url1 else url1)
      in if take 2 url2 = ''//'' then
           (let netloc = takeWhile (\<lambda>c. c \<notin> set ''/?#'') (drop 2 url2)
            in if (CHR ''['' \<in> set netloc \<and> CHR '']'' \<notin> set netloc)
                  \<or> (CHR '']'' \<in> set netloc \<and> CHR ''['' \<notin> set netloc) then None
               else if CHR ''['' \<in> set netloc \<and> CHR '']'' \<in> set netloc
                       \<and> \<not> check_bracketed_netloc netloc then None
               else Some (scheme, netloc))
         else Some (scheme, []))"

section \<open>The voluptuous validators\<close>

text \<open>
  Modelled from the spec: the primitive validators (\<^verbatim>\<open>vol.Coerce\<close>, \<^verbatim>\<open>vol.Range\<close>,
  \<^verbatim>\<open>vol.All\<close> and the others of section 4.1) belong to the voluptuous library, which is
  not under \<^verbatim>\<open>src/\<close>. Each is a function from a value to an error or a normalized value.
\<close>

text \<open>
  \<^verbatim>\<open>vol.Coerce(int)\<close> calls \<^verbatim>\<open>int(v)\<close> and turns \<^verbatim>\<open>ValueError\<close> and
  \<^verbatim>\<open>TypeError\<close> into \<^verbatim>\<open>CoerceInvalid\<close>; any other exception passes through.
\<close>

definition vol_Coerce_int :: validator where
  "vol_Coerce_int v =
     (case py_int v of
        Inr n \<Rightarrow> Inr (VInt n)
      | Inl ex \<Rightarrow> if ex = ''ValueError'' \<or> ex = ''TypeError'' then Inl CoerceInvalid
                  else Inl (Uncaught ex))"

text \<open>
  \<^verbatim>\<open>v >= k\<close> and \<^verbatim>\<open>v <= k\<close> against an integer bound: \<open>None\<close> is the
  \<^verbatim>\<open>TypeError\<close> of a value that has no order with integers.
\<close>

fun py_ge :: "pyval \<Rightarrow> int \<Rightarrow> bool option" where
  "py_ge (VInt n) k = Some (k \<le> n)"
| "py_ge (VBool b) k = Some (k \<le> (if b then 1 else 0))"
| "py_ge (VFloat (Finite m e)) k =
     Some (if 0 \<le> e then k \<le> m * 2 ^ nat e else k * 2 ^ nat (- e) \<le> m)"
| "py_ge (VFloat (Infinity pos)) k = Some pos"
| "py_ge (VFloat NaN) k = Some False"
| "py_ge _ k = None"

fun py_le :: "pyval \<Rightarrow> int \<Rightarrow> bool option" where
  "py_le (VInt n) k = Some (n \<le> k)"
| "py_le (VBool b) k = Some ((if b then 1 else 0) \<le> k)"
| "py_le (VFloat (Finite m e)) k =
     Some (if 0 \<le> e then m * 2 ^ nat e \<le> k else m \<le> k * 2 ^ nat (- e))"
| "py_le (VFloat (Infinity pos)) k = Some (\<not> pos)"
| "py_le (VFloat NaN) k = Some False"
| "py_le _ k = None"

text \<open>
  \<^verbatim>\<open>vol.Range(min, max)\<close>, both bounds optional and inclusive: the lower bound is
  checked first; a \<^verbatim>\<open>TypeError\<close> of the comparison is a \<^verbatim>\<open>RangeInvalid\<close> too.
\<close>

definition vol_Range :: "int option \<Rightarrow> int option \<Rightarrow> validator" where
  "vol_Range lo hi v =
     (case (case lo of None \<Rightarrow> Some True | Some k \<Rightarrow> py_ge v k) of
        None \<Rightarrow> Inl RangeInvalid
      | Some ge_ok \<Rightarrow>
          if \<not> ge_ok then Inl RangeInvalid
          else (case (case hi of None \<Rightarrow> Some True | Some k \<Rightarrow> py_le v k) of
                  None \<Rightarrow> Inl RangeInvalid
                | Some le_ok \<Rightarrow> if \<not> le_ok then Inl RangeInvalid else Inr v))"

text \<open>
  \<^verbatim>\<open>vol.All(v1, ..., vn)\<close>: the validators run left to right, each on the output of
  the one before; the first error ends the pipeline.
\<close>

fun vol_All :: "validator list \<Rightarrow> validator" where
  "vol_All [] v = Inr v"
| "vol_All (f # fs) v = (case f v of Inl e \<Rightarrow> Inl e | Inr v' \<Rightarrow> vol_All fs v')"

text \<open>
  \<^verbatim>\<open>vol.Match(pattern)\<close>: \<^verbatim>\<open>pattern.match(v)\<close> must succeed; a value that is not a
  string gives the \<^verbatim>\<open>TypeError\<close> that \<^verbatim>\<open>Match\<close> turns into \<^verbatim>\<open>MatchInvalid\<close>.
\<close>

definition vol_Match :: "regex \<Rightarrow> validator" where
  "vol_Match r v =
     (case v of
        VStr s \<Rightarrow> (case re_match r s of None \<Rightarrow> Inl MatchInvalid | Some _ \<Rightarrow> Inr v)
      | _ \<Rightarrow> Inl MatchInvalid)"

text \<open>\<^verbatim>\<open>len(v)\<close>; \<open>None\<close> is the \<^verbatim>\<open>TypeError\<close> of a value without a length.\<close>

fun py_len :: "pyval \<Rightarrow> nat option" where
  "py_len (VStr s) = Some (length s)"
| "py_len (VList xs) = Some (length xs)"
| "py_len (VDict d) = Some (length d)"
| "py_len _ = None"

text \<open>
  \<^verbatim>\<open>vol.Length(max=n)\<close>: a \<^verbatim>\<open>TypeError\<close> of \<^verbatim>\<open>len\<close> is a \<^verbatim>\<open>RangeInvalid\<close>.
\<close>

definition vol_Length :: "nat \<Rightarrow> validator" where
  "vol_Length n v =
     (case py_len v of
        None \<Rightarrow> Inl RangeInvalid
      | Some l \<Rightarrow> if l > n then Inl LengthInvalid else Inr v)"

text \<open>
  A list schema \<^verbatim>\<open>[f]\<close>: the value must be a list; every element is validated, the
  \<^verbatim>\<open>vol.Invalid\<close> errors of the elements are collected and raised together at the end,
  any other exception ends the loop at once.
\<close>

fun validate_sequence :: "validator \<Rightarrow> pyval list \<Rightarrow> pyval list \<Rightarrow> error list \<Rightarrow> error + pyval" where
  "validate_sequence f [] out errors =
     (if errors \<noteq> [] then Inl (MultipleInvalid errors) else Inr (VList out))"
| "validate_sequence f (x # xs) out errors =
     (case f x of
        Inr cval \<Rightarrow> validate_sequence f xs (out @ [cval]) errors
      | Inl (Uncaught ex) \<Rightarrow> Inl (Uncaught ex)
      | Inl e \<Rightarrow> validate_sequence f xs out (errors @ [e]))"

definition vol_Sequence :: "validator \<Rightarrow> validator" where
  "vol_Sequence f v =
     (case v of
        VList xs \<Rightarrow> validate_sequence f xs [] []
      | _ \<Rightarrow> Inl SequenceTypeInvalid)"

text \<open>
  What a list schema collects from the elements: the errors of those that fail and the
  results of those that pass, both in the order of the input.
\<close>

definition collected_errors :: "validator \<Rightarrow> pyval list \<Rightarrow> error list" where
  "collected_errors f xs = concat (map (\<lambda>x. case f x of Inl e \<Rightarrow> [e] | Inr _ \<Rightarrow> []) xs)"

definition collected_values :: "validator \<Rightarrow> pyval list \<Rightarrow> pyval list" where
  "collected_values f xs = concat (map (\<lambda>x. case f x of Inl _ \<Rightarrow> [] | Inr c \<Rightarrow> [c]) xs)"

text \<open>
  \<^verbatim>\<open>a == b\<close> between hashable values: numbers are equal by value, whatever their type,
  and a \<^verbatim>\<open>NaN\<close> equals nothing. \<open>num_of v = Some (m, k)\<close> says that \<open>v\<close> is the number
  \<open>m / 2 ^ k\<close>.
\<close>

fun num_of :: "pyval \<Rightarrow> (int \<times> nat) option" where
  "num_of (VBool b) = Some (if b then 1 else 0, 0)"
| "num_of (VInt n) = Some (n, 0)"
| "num_of (VFloat (Finite m e)) = Some (if 0 \<le> e then (m * 2 ^ nat e, 0) else (m, nat (- e)))"
| "num_of _ = None"

definition py_eq :: "pyval \<Rightarrow> pyval \<Rightarrow> bool" where
  "py_eq a b =
     (case (num_of a, num_of b) of
        (Some (m, k), Some (m', k')) \<Rightarrow> m * 2 ^ k' = m' * 2 ^ k
      | (None, None) \<Rightarrow> a \<noteq> VFloat NaN \<and> a = b
      | _ \<Rightarrow> False)"

fun py_distinct :: "pyval list \<Rightarrow> bool" where
  "py_distinct [] = True"
| "py_distinct (x # xs) = (\<not> list_ex (py_eq x) xs \<and> py_distinct xs)"

fun hashable :: "pyval \<Rightarrow> bool" where
  "hashable (VList _) = False"
| "hashable (VDict _) = False"
| "hashable _ = True"

text \<open>
  \<^verbatim>\<open>vol.Unique()\<close>: \<^verbatim>\<open>set(v)\<close> must have as many elements as \<^verbatim>\<open>v\<close>. A value that
  cannot be iterated or has an unhashable element is a \<^verbatim>\<open>TypeInvalid\<close>. The message of
  the error ends with the list of the duplicates, which is left out here.
\<close>

definition vol_Unique :: validator where
  "vol_Unique v =
     (case v of
        VList xs \<Rightarrow>
          if \<not> list_all hashable xs then Inl TypeInvalid
          else if \<not> py_distinct xs then Inl (Invalid ''contains duplicate items'')
          else Inr v
      | VStr s \<Rightarrow> if \<not> distinct s then Inl (Invalid ''contains duplicate items'') else Inr v
      | VDict _ \<Rightarrow> Inr v
      | _ \<Rightarrow> Inl TypeInvalid)"

text \<open>
  \<^verbatim>\<open>vol.Url()\<close>: \<^verbatim>\<open>urlparse\<close> must return a scheme and a network location that are
  not empty; every exception on the way is a \<^verbatim>\<open>UrlInvalid\<close>.
\<close>

definition vol_Url :: validator where
  "vol_Url v =
     (case v of
        VStr s \<Rightarrow>
          (case urlsplit s of
             None \<Rightarrow> Inl UrlInvalid
           | Some (scheme, netloc) \<Rightarrow>
               if scheme = [] \<or> netloc = [] then Inl UrlInvalid else Inr v)
      | _ \<Rightarrow> Inl UrlInvalid)"

text \<open>\<^verbatim>\<open>vol.In(container)\<close> for a container of strings.\<close>

definition vol_In :: "string list \<Rightarrow> validator" where
  "vol_In container v =
     (case v of
        VStr s \<Rightarrow> if s \<in> set container then Inr v else Inl InInvalid
      | _ \<Rightarrow> Inl InInvalid)"

text \<open>\<^verbatim>\<open>bool(v)\<close>\<close>

fun py_bool :: "pyval \<Rightarrow> bool" where
  "py_bool VNone = False"
| "py_bool (VBool b) = b"
| "py_bool (VInt n) = (n \<noteq> 0)"
| "py_bool (VFloat (Finite m e)) = (m \<noteq> 0)"
| "py_bool (VFloat _) = True"
| "py_bool (VStr s) = (s \<noteq> [])"
| "py_bool (VList xs) = (xs \<noteq> [])"
| "py_bool (VDict d) = (d \<noteq> [])"

text \<open>\<^verbatim>\<open>vol.Boolean()\<close>\<close>

definition vol_Boolean :: validator where
  "vol_Boolean v =
     (case v of
        VStr s \<Rightarrow>
          if lower s \<in> set [''1'', ''true'', ''yes'', ''on'', ''enable''] then Inr (VBool True)
          else if lower s \<in> set [''0'', ''false'', ''no'', ''off'', ''disable''] then Inr (VBool False)
          else Inl BooleanInvalid
      | _ \<Rightarrow> Inr (VBool (py_bool v)))"

text \<open>
  \<^verbatim>\<open>vol.Maybe(f)\<close> is \<^verbatim>\<open>vol.Any(None, f)\<close>: \<^verbatim>\<open>None\<close> passes; any other value
  goes to \<open>f\<close>, and when \<open>f\<close> rejects it the error raised is the first one, that of the
  comparison with \<^verbatim>\<open>None\<close>.
\<close>

definition vol_Maybe :: "validator \<Rightarrow> validator" where
  "vol_Maybe f v =
     (if v = VNone then Inr VNone
      else case f v of
             Inr r \<Rightarrow> Inr r
           | Inl (Uncaught ex) \<Rightarrow> Inl (Uncaught ex)
           | Inl e \<Rightarrow> Inl ScalarInvalid)"

text \<open>
  \<^verbatim>\<open>vol.Coerce(str)\<close> and \<^verbatim>\<open>vol.Coerce(float)\<close>. The built-ins \<^verbatim>\<open>str\<close> and
  \<^verbatim>\<open>float\<close> are parameters: \<^verbatim>\<open>str(v)\<close> always returns a string, \<^verbatim>\<open>float(v)\<close>
  returns a float or names its exception.
\<close>

definition vol_Coerce_str :: "(pyval \<Rightarrow> string) \<Rightarrow> validator" where
  "vol_Coerce_str str_of v = Inr (VStr (str_of v))"

definition vol_Coerce_float :: "(pyval \<Rightarrow> string + pyfloat) \<Rightarrow> validator" where
  "vol_Coerce_float float_of v =
     (case float_of v of
        Inr x \<Rightarrow> Inr (VFloat x)
      | Inl ex \<Rightarrow> if ex = ''ValueError'' \<or> ex = ''TypeError'' then Inl CoerceInvalid
                  else Inl (Uncaught ex))"

section \<open>The schema engine\<close>

text \<open>
  Modelled from the spec: the validation engine of sections 3 and 4.3 is
  \<^verbatim>\<open>vol.Schema\<close> of the voluptuous library, which is not under \<^verbatim>\<open>src/\<close>. A field
  is a key with its marker (\<^verbatim>\<open>vol.Required\<close> or \<^verbatim>\<open>vol.Optional\<close>), its default and
  its schema. A default is \<^verbatim>\<open>UNDEFINED\<close>, a value, or a callable that the engine calls
  when it needs the default; the callable may change the world outside (the state \<open>'s\<close>),
  so validation passes the state along. The extra-key policy is \<^verbatim>\<open>PREVENT_EXTRA\<close>
  (reject), \<^verbatim>\<open>ALLOW_EXTRA\<close> or \<^verbatim>\<open>REMOVE_EXTRA\<close> (remove silently).
\<close>

type_synonym 's svalidator = "pyval \<Rightarrow> 's \<Rightarrow> (error + pyval) \<times> 's"

datatype marker = Required | Optional

datatype 's default = UNDEFINED | Value pyval | Factory "'s \<Rightarrow> pyval \<times> 's"

datatype 's field =
  Field (fmarker: marker) (fkey: string) (fdefault: "'s default") (fschema: "'s svalidator")

datatype extra = PREVENT_EXTRA | ALLOW_EXTRA | REMOVE_EXTRA

text \<open>A validator that reads and changes no state.\<close>

definition stateless :: "validator \<Rightarrow> 's svalidator" where
  "stateless f = (\<lambda>v s. (f v, s))"

text \<open>\<^verbatim>\<open>d[k] = v\<close>: a key that is there keeps its place, a new key goes to the end.\<close>

fun dict_set :: "(string \<times> pyval) list \<Rightarrow> string \<Rightarrow> pyval \<Rightarrow> (string \<times> pyval) list" where
  "dict_set [] k v = [(k, v)]"
| "dict_set ((k', v') # d) k v = (if k' = k then (k, v) # d else (k', v') # dict_set d k v)"

text \<open>The map of the provided key-value pairs.\<close>

definition dict_of_items :: "(string \<times> pyval) list \<Rightarrow> (string \<times> pyval) list" where
  "dict_of_items items = foldl (\<lambda>d (k, v). dict_set d k v) [] items"

text \<open>
  Every field that has a default and whose key is missing gets its default, in the order of
  the declaration; a callable default is called here, once.
\<close>

fun insert_defaults ::
  "'s field list \<Rightarrow> (string \<times> pyval) list \<Rightarrow> 's \<Rightarrow> (string \<times> pyval) list \<times> 's" where
  "insert_defaults [] d s = (d, s)"
| "insert_defaults (f # fs) d s =
     (if fkey f \<in> fst ` set d then insert_defaults fs d s
      else (case fdefault f of
              UNDEFINED \<Rightarrow> insert_defaults fs d s
            | Value v \<Rightarrow> insert_defaults fs (dict_set d (fkey f) v) s
            | Factory g \<Rightarrow> (case g s of (v, s') \<Rightarrow> insert_defaults fs (dict_set d (fkey f) v) s')))"

text \<open>
  Every pair of the map, defaults included, is validated by the schema of its field; the
  errors are collected and validation goes on. A key that no field declares falls under
  the extra-key policy. \<open>Inl\<close> is an exception that is not a \<^verbatim>\<open>vol.Invalid\<close>: it ends the
  loop.
\<close>

fun validate_items ::
  "extra \<Rightarrow> 's field list \<Rightarrow> (string \<times> pyval) list \<Rightarrow> (string \<times> pyval) list \<Rightarrow> error list \<Rightarrow> 's
     \<Rightarrow> (string + (string \<times> pyval) list \<times> error list) \<times> 's" where
  "validate_items ex fs [] out errors s = (Inr (out, errors), s)"
| "validate_items ex fs ((k, v) # items) out errors s =
     (case find (\<lambda>f. fkey f = k) fs of
        None \<Rightarrow>
          (case ex of
             ALLOW_EXTRA \<Rightarrow> validate_items ex fs items (dict_set out k v) errors s
           | REMOVE_EXTRA \<Rightarrow> validate_items ex fs items out errors s
           | PREVENT_EXTRA \<Rightarrow>
               validate_items ex fs items out (errors @ [Invalid ''extra keys not allowed'']) s)
      | Some f \<Rightarrow>
          (case fschema f v s of
             (Inr cval, s') \<Rightarrow> validate_items ex fs items (dict_set out k cval) errors s'
           | (Inl (Uncaught exn), s') \<Rightarrow> (Inl exn, s')
           | (Inl (MultipleInvalid es), s') \<Rightarrow> validate_items ex fs items out (errors @ es) s'
           | (Inl e, s') \<Rightarrow> validate_items ex fs items out (errors @ [e]) s'))"

text \<open>The required fields whose key is still missing after the defaults.\<close>

definition missing_required :: "'s field list \<Rightarrow> (string \<times> pyval) list \<Rightarrow> error list" where
  "missing_required fs d =
     map (\<lambda>f. RequiredFieldInvalid (fkey f))
       (filter (\<lambda>f. fmarker f = Required \<and> fkey f \<notin> fst ` set d) fs)"

text \<open>
  \<^verbatim>\<open>vol.Schema({...}, extra=...)\<close> with literal keys, called on a value: either the
  normalized dictionary, or all the errors in one \<^verbatim>\<open>MultipleInvalid\<close>.
\<close>

definition Schema :: "'s field list \<Rightarrow> extra \<Rightarrow> 's svalidator" where
  "Schema fs ex v s =
     (case v of
        VDict items \<Rightarrow>
          (case insert_defaults fs (dict_of_items items) s of
             (d, s1) \<Rightarrow>
               (case validate_items ex fs d [] [] s1 of
                  (Inl exn, s2) \<Rightarrow> (Inl (Uncaught exn), s2)
                | (Inr (out, errors), s2) \<Rightarrow>
                    if errors @ missing_required fs d \<noteq> []
                    then (Inl (MultipleInvalid (errors @ missing_required fs d)), s2)
                    else (Inr (VDict out), s2)))
      | _ \<Rightarrow> (Inl (MultipleInvalid [DictInvalid]), s))"

text \<open>
  A dictionary schema whose only key is a validator, \<^verbatim>\<open>vol.Schema({kv: vv})\<close>: every
  key of the input goes through \<open>kv\<close> and its value through \<open>vv\<close>. A key that \<open>kv\<close>
  rejects is an extra key, which the default policy \<^verbatim>\<open>PREVENT_EXTRA\<close> reports. Keys are
  strings in this model, so a key validator that returns something else is outside it.
\<close>

fun validate_dynamic ::
  "validator \<Rightarrow> validator \<Rightarrow> (string \<times> pyval) list \<Rightarrow> (string \<times> pyval) list \<Rightarrow> error list
     \<Rightarrow> string + (string \<times> pyval) list \<times> error list" where
  "validate_dynamic kv vv [] out errors = Inr (out, errors)"
| "validate_dynamic kv vv ((k, v) # items) out errors =
     (case kv (VStr k) of
        Inl (Uncaught exn) \<Rightarrow> Inl exn
      | Inl e \<Rightarrow> validate_dynamic kv vv items out (errors @ [Invalid ''extra keys not allowed''])
      | Inr (VStr new_key) \<Rightarrow>
          (case vv v of
             Inr cval \<Rightarrow> validate_dynamic kv vv items (dict_set out new_key cval) errors
           | Inl (Uncaught exn) \<Rightarrow> Inl exn
           | Inl (MultipleInvalid es) \<Rightarrow> validate_dynamic kv vv items out (errors @ es)
           | Inl e \<Rightarrow> validate_dynamic kv vv items out (errors @ [e]))
      | Inr _ \<Rightarrow> Inl ''TypeError'')"

definition Schema_dynamic :: "validator \<Rightarrow> validator \<Rightarrow> validator" where
  "Schema_dynamic kv vv v =
     (case v of
        VDict items \<Rightarrow>
          (case validate_dynamic kv vv (dict_of_items items) [] [] of
             Inl exn \<Rightarrow> Inl (Uncaught exn)
           | Inr (out, errors) \<Rightarrow>
               if errors \<noteq> [] then Inl (MultipleInvalid errors) else Inr (VDict out))
      | _ \<Rightarrow> Inl (MultipleInvalid [DictInvalid]))"

section \<open>The validators of \<^verbatim>\<open>supervisor/validate.py\<close>\<close>

definition network_port :: validator where
  "network_port = vol_All [vol_Coerce_int, vol_Range (Some 1) (Some 65535)]"

definition wait_boot :: validator where
  "wait_boot = vol_All [vol_Coerce_int, vol_Range (Some 1) (Some 60)]"

text \<open>The validator that \<^verbatim>\<open>SCHEMA_HASS_CONFIG\<close> gives to \<^verbatim>\<open>ATTR_WAIT_BOOT\<close>.\<close>

definition hass_wait_boot :: validator where
  "hass_wait_boot = vol_All [vol_Coerce_int, vol_Range (Some 60) None]"

text \<open>
  \<^verbatim>\<open>r"^[\w{}]+/[\-\w{}]+$"\<close>, with its two character classes \<^verbatim>\<open>[\w{}]\<close> and
  \<^verbatim>\<open>[\-\w{}]\<close>.
\<close>

definition namespace_char :: "char \<Rightarrow> bool" where
  "namespace_char c = (is_word c \<or> c = CHR ''{'' \<or> c = CHR ''}'')"

definition name_char :: "char \<Rightarrow> bool" where
  "name_char c = (c = CHR ''-'' \<or> is_word c \<or> c = CHR ''{'' \<or> c = CHR ''}'')"

definition docker_image_re :: regex where
  "docker_image_re =
     Cat Bol
       (Cat (Rep namespace_char 1 None)
          (Cat (Lit CHR ''/'') (Cat (Rep name_char 1 None) Eol)))"

definition docker_image :: validator where
  "docker_image = vol_Match docker_image_re"

text \<open>\<^verbatim>\<open>r"^[0-9a-f]{32}$"\<close>, \<^verbatim>\<open>r"^[0-9a-f]{64}$"\<close> and \<^verbatim>\<open>r"^[0-9a-f]{32,256}$"\<close>\<close>

definition uuid_match :: validator where
  "uuid_match = vol_Match (Cat Bol (Cat (Rep is_lower_hex 32 (Some 32)) Eol))"

definition sha256 :: validator where
  "sha256 = vol_Match (Cat Bol (Cat (Rep is_lower_hex 64 (Some 64)) Eol))"

definition token :: validator where
  "token = vol_Match (Cat Bol (Cat (Rep is_lower_hex 32 (Some 256)) Eol))"

definition log_level :: validator where
  "log_level = vol_In [''debug'', ''info'', ''warning'', ''error'', ''critical'']"

text \<open>
  \<^verbatim>\<open>dns_url\<close>. A value that is not a string has no \<^verbatim>\<open>lower\<close>: the
  \<^verbatim>\<open>AttributeError\<close> is caught by nothing.
\<close>

definition dns_url :: validator where
  "dns_url v =
     (case v of
        VStr url \<Rightarrow>
          if \<not> startswith (lower url) ''dns://'' then Inl (Invalid ''Doesn't start with dns://'')
          else (let address = drop 6 url
                in case ip_address address of
                     None \<Rightarrow> Inl (Invalid (''Invalid DNS URL: '' @ url))
                   | Some _ \<Rightarrow> Inr (VStr url))
      | _ \<Rightarrow> Inl (Uncaught ''AttributeError''))"

definition dns_server_list :: validator where
  "dns_server_list = vol_All [vol_Length 8, vol_Sequence dns_url]"

text \<open>
  \<^verbatim>\<open>r"^(?P<url>[^#]+)(?:#(?P<branch>[\w\-]+))?$"\<close>, with its two character classes
  \<^verbatim>\<open>[^#]\<close> and \<^verbatim>\<open>[\w\-]\<close>.
\<close>

definition not_hash :: "char \<Rightarrow> bool" where
  "not_hash c = (c \<noteq> CHR ''#'')"

definition branch_char :: "char \<Rightarrow> bool" where
  "branch_char c = (is_word c \<or> c = CHR ''-'')"

definition RE_REPOSITORY :: regex where
  "RE_REPOSITORY =
     Cat Bol
       (Cat (Grp ''url'' (Rep not_hash 1 None))
          (Cat (Opt (Cat (Lit CHR ''#'') (Grp ''branch'' (Rep branch_char 1 None)))) Eol))"

text \<open>
  \<^verbatim>\<open>validate_repository\<close>. \<^verbatim>\<open>RE_REPOSITORY.match\<close> of a value that is not a string
  is a \<^verbatim>\<open>TypeError\<close>, caught by nothing; a group that took no part in the match is
  \<^verbatim>\<open>None\<close>.
\<close>

definition validate_repository :: validator where
  "validate_repository v =
     (case v of
        VStr repository \<Rightarrow>
          (case re_match RE_REPOSITORY repository of
             None \<Rightarrow> Inl (Invalid ''No valid repository format!'')
           | Some data \<Rightarrow>
               (case vol_Url (case group data ''url'' of None \<Rightarrow> VNone | Some u \<Rightarrow> VStr u) of
                  Inl e \<Rightarrow> Inl e
                | Inr _ \<Rightarrow> Inr (VStr repository)))
      | _ \<Rightarrow> Inl (Uncaught ''TypeError''))"

definition repositories :: validator where
  "repositories = vol_All [vol_Sequence validate_repository, vol_Unique]"

subsection \<open>The schemas\<close>

text \<open>
  Modelled from the spec: the \<^verbatim>\<open>ATTR_*\<close> constants come from \<^verbatim>\<open>supervisor/const.py\<close>,
  which is not under \<^verbatim>\<open>src/\<close>; each is the field name in lower case.
\<close>

definition ATTR_UUID :: string where "ATTR_UUID = ''uuid''"
definition ATTR_VERSION :: string where "ATTR_VERSION = ''version''"
definition ATTR_IMAGE :: string where "ATTR_IMAGE = ''image''"
definition ATTR_ACCESS_TOKEN :: string where "ATTR_ACCESS_TOKEN = ''access_token''"
definition ATTR_BOOT :: string where "ATTR_BOOT = ''boot''"
definition ATTR_PORT :: string where "ATTR_PORT = ''port''"
definition ATTR_REFRESH_TOKEN :: string where "ATTR_REFRESH_TOKEN = ''refresh_token''"
definition ATTR_SSL :: string where "ATTR_SSL = ''ssl''"
definition ATTR_WATCHDOG :: string where "ATTR_WATCHDOG = ''watchdog''"
definition ATTR_WAIT_BOOT :: string where "ATTR_WAIT_BOOT = ''wait_boot''"
definition ATTR_AUDIO_OUTPUT :: string where "ATTR_AUDIO_OUTPUT = ''audio_output''"
definition ATTR_AUDIO_INPUT :: string where "ATTR_AUDIO_INPUT = ''audio_input''"
definition ATTR_TIMEZONE :: string where "ATTR_TIMEZONE = ''timezone''"
definition ATTR_LAST_BOOT :: string where "ATTR_LAST_BOOT = ''last_boot''"
definition ATTR_ADDONS_CUSTOM_LIST :: string where "ATTR_ADDONS_CUSTOM_LIST = ''addons_custom_list''"
definition ATTR_LOGGING :: string where "ATTR_LOGGING = ''logging''"
definition ATTR_DEBUG :: string where "ATTR_DEBUG = ''debug''"
definition ATTR_DEBUG_BLOCK :: string where "ATTR_DEBUG_BLOCK = ''debug_block''"
definition ATTR_SESSION :: string where "ATTR_SESSION = ''session''"
definition ATTR_PORTS :: string where "ATTR_PORTS = ''ports''"

text \<open>
  What the schemas take from outside the repository: the built-ins \<^verbatim>\<open>str\<close> and
  \<^verbatim>\<open>float\<close>, the 16 random bytes that the \<open>n\<close>-th call of \<^verbatim>\<open>uuid.uuid4\<close> draws from
  \<^verbatim>\<open>os.urandom\<close>, and \<^verbatim>\<open>validate_timezone\<close> of \<^verbatim>\<open>supervisor/utils/validate.py\<close>.
\<close>

record env =
  py_str :: "pyval \<Rightarrow> string"
  py_float :: "pyval \<Rightarrow> string + pyfloat"
  urandom16 :: "nat \<Rightarrow> 128 word"
  validate_timezone :: validator

text \<open>
  \<^verbatim>\<open>uuid.uuid4().hex\<close>: the random bytes with the variant and version bits set, as 32
  lower-case hex digits.
\<close>

definition uuid4_int :: "128 word \<Rightarrow> 128 word" where
  "uuid4_int w =
     or (and (or (and w (not (push_bit 48 0xc000))) (push_bit 48 0x8000))
            (not (push_bit 64 0xf000)))
        (push_bit 76 4)"

definition hex32 :: "128 word \<Rightarrow> string" where
  "hex32 w = map (\<lambda>i. hexdigit (unat (and (drop_bit (4 * i) w) 0xf))) (rev [0..<32])"

definition uuid4_hex :: "128 word \<Rightarrow> string" where
  "uuid4_hex w = hex32 (uuid4_int w)"

text \<open>
  The state of a validation is the number of calls of \<^verbatim>\<open>uuid.uuid4\<close> made so far;
  \<^verbatim>\<open>lambda: uuid.uuid4().hex\<close> makes one more.
\<close>

definition uuid_default :: "env \<Rightarrow> nat \<Rightarrow> pyval \<times> nat" where
  "uuid_default e n = (VStr (uuid4_hex (urandom16 e n)), Suc n)"

definition HASS_CONFIG_fields :: "env \<Rightarrow> nat field list" where
  "HASS_CONFIG_fields e =
       [Field Optional ATTR_UUID (Factory (uuid_default e)) (stateless uuid_match),
        Field Optional ATTR_VERSION UNDEFINED (stateless (vol_Maybe (vol_Coerce_str (py_str e)))),
        Field Optional ATTR_IMAGE UNDEFINED (stateless docker_image),
        Field Optional ATTR_ACCESS_TOKEN UNDEFINED (stateless token),
        Field Optional ATTR_BOOT (Value (VBool True)) (stateless vol_Boolean),
        Field Optional ATTR_PORT (Value (VInt 8123)) (stateless network_port),
        Field Optional ATTR_REFRESH_TOKEN UNDEFINED
          (stateless (vol_Maybe (vol_Coerce_str (py_str e)))),
        Field Optional ATTR_SSL (Value (VBool False)) (stateless vol_Boolean),
        Field Optional ATTR_WATCHDOG (Value (VBool True)) (stateless vol_Boolean),
        Field Optional ATTR_WAIT_BOOT (Value (VInt 600)) (stateless hass_wait_boot),
        Field Optional ATTR_AUDIO_OUTPUT (Value VNone)
          (stateless (vol_Maybe (vol_Coerce_str (py_str e)))),
        Field Optional ATTR_AUDIO_INPUT (Value VNone)
          (stateless (vol_Maybe (vol_Coerce_str (py_str e))))]"

definition SCHEMA_HASS_CONFIG :: "env \<Rightarrow> nat svalidator" where
  "SCHEMA_HASS_CONFIG e = Schema (HASS_CONFIG_fields e) REMOVE_EXTRA"

definition SUPERVISOR_CONFIG_fields :: "env \<Rightarrow> nat field list" where
  "SUPERVISOR_CONFIG_fields e =
       [Field Optional ATTR_TIMEZONE (Value (VStr ''UTC'')) (stateless (validate_timezone e)),
        Field Optional ATTR_LAST_BOOT UNDEFINED (stateless (vol_Coerce_str (py_str e))),
        Field Optional ATTR_ADDONS_CUSTOM_LIST
          (Value (VList [VStr ''https://github.com/hassio-addons/repository'']))
          (stateless repositories),
        Field Optional ATTR_WAIT_BOOT (Value (VInt 5)) (stateless wait_boot),
        Field Optional ATTR_LOGGING (Value (VStr ''info'')) (stateless log_level),
        Field Optional ATTR_DEBUG (Value (VBool False)) (stateless vol_Boolean),
        Field Optional ATTR_DEBUG_BLOCK (Value (VBool False)) (stateless vol_Boolean)]"

definition SCHEMA_SUPERVISOR_CONFIG :: "env \<Rightarrow> nat svalidator" where
  "SCHEMA_SUPERVISOR_CONFIG e = Schema (SUPERVISOR_CONFIG_fields e) REMOVE_EXTRA"

text \<open>\<^verbatim>\<open>default=dict\<close> is a callable: it returns a new empty dictionary.\<close>

definition dict_default :: "nat \<Rightarrow> pyval \<times> nat" where
  "dict_default n = (VDict [], n)"

definition INGRESS_CONFIG_fields :: "env \<Rightarrow> nat field list" where
  "INGRESS_CONFIG_fields e =
       [Field Required ATTR_SESSION (Factory dict_default)
          (stateless (Schema_dynamic token (vol_Coerce_float (py_float e)))),
        Field Required ATTR_PORTS (Factory dict_default)
          (stateless (Schema_dynamic (vol_Coerce_str (py_str e)) network_port))]"

definition SCHEMA_INGRESS_CONFIG :: "env \<Rightarrow> nat svalidator" where
  "SCHEMA_INGRESS_CONFIG e = Schema (INGRESS_CONFIG_fields e) REMOVE_EXTRA"

text \<open>
  A sample of what lies outside the repository, for the closed instances below: \<^verbatim>\<open>str\<close>
  of anything is the empty string, \<^verbatim>\<open>float\<close> always raises, the \<open>n\<close>-th random draw is
  the number \<open>n\<close>, and every time zone is valid.
\<close>

definition env0 :: env where
  "env0 = \<lparr>py_str = (\<lambda>v. []), py_float = (\<lambda>v. Inl ''TypeError''),
           urandom16 = (\<lambda>n. of_nat n), validate_timezone = Inr\<rparr>"

text \<open>The schema that a mapping schema gives to a key, if it declares the key.\<close>

definition schema_of :: "'s field list \<Rightarrow> string \<Rightarrow> 's svalidator option" where
  "schema_of fs k = map_option fschema (find (\<lambda>f. fkey f = k) fs)"

text \<open>The pairs of a dictionary whose key lies in a set of keys.\<close>

definition restrict_keys :: "string set \<Rightarrow> (string \<times> pyval) list \<Rightarrow> (string \<times> pyval) list" where
  "restrict_keys K d = filter (\<lambda>(k, v). k \<in> K) d"

section \<open>The forms that the specification describes\<close>

text \<open>
  The specification words two of the string formats on their own. These definitions
  follow its words, to be compared with what the patterns of the code accept.

  A Docker image is \<^verbatim>\<open>namespace/name\<close>, where each of the two segments is not empty and
  consists of alphanumeric characters, underscores, hyphens and the braces of template
  placeholders.
\<close>

definition spec_segment_char :: "char \<Rightarrow> bool" where
  "spec_segment_char c = (is_word c \<or> c = CHR ''-'' \<or> c = CHR ''{'' \<or> c = CHR ''}'')"

definition spec_docker_image :: "string \<Rightarrow> bool" where
  "spec_docker_image s =
     (let ns = takeWhile (\<lambda>c. c \<noteq> CHR ''/'') s;
          nm = drop (length ns + 1) s
      in length ns < length s \<and> ns \<noteq> [] \<and> nm \<noteq> []
         \<and> list_all spec_segment_char ns \<and> list_all spec_segment_char nm)"

text \<open>
  A repository is \<^verbatim>\<open><url>[#<branch>]\<close>: a url part that is not empty and holds no
  \<^verbatim>\<open>#\<close>, then, if present, \<^verbatim>\<open>#\<close> and a branch that is not empty and consists of word
  characters and hyphens.
\<close>

definition spec_repository :: "string \<Rightarrow> bool" where
  "spec_repository s =
     (let url = takeWhile (\<lambda>c. c \<noteq> CHR ''#'') s;
          tail = drop (length url) s
      in url \<noteq> [] \<and> (tail = [] \<or> (tl tail \<noteq> [] \<and> list_all branch_char (tl tail))))"

section \<open>Properties\<close>

subsection \<open>Integer pipelines\<close>

lemma vol_All_pair: "vol_All [f, g] v = (case f v of Inl e \<Rightarrow> Inl e | Inr v' \<Rightarrow> g v')"
  by (simp split: sum.splits)

lemma vol_Range_VInt:
  "vol_Range lo hi (VInt n) =
     (if (case lo of None \<Rightarrow> True | Some k \<Rightarrow> k \<le> n) \<and> (case hi of None \<Rightarrow> True | Some k \<Rightarrow> n \<le> k)
      then Inr (VInt n) else Inl RangeInvalid)"
  by (simp add: vol_Range_def split: option.splits)

lemma int_range_pipeline:
  "vol_All [vol_Coerce_int, vol_Range lo hi] v =
     (case py_int v of
        Inl ex \<Rightarrow> if ex = ''ValueError'' \<or> ex = ''TypeError'' then Inl CoerceInvalid else Inl (Uncaught ex)
      | Inr n \<Rightarrow> if (case lo of None \<Rightarrow> True | Some k \<Rightarrow> k \<le> n) \<and> (case hi of None \<Rightarrow> True | Some k \<Rightarrow> n \<le> k)
                 then Inr (VInt n) else Inl RangeInvalid)"
  unfolding vol_All_pair by (simp add: vol_Coerce_int_def vol_Range_VInt split: sum.splits)

lemmas int_of_str_defs = int_of_str_def strip_int_def int_space_def unsigned_of_str_def
  is_digit_def digit_val_def

lemma int_of_str_examples:
  "int_of_str ''0'' = Some 0" "int_of_str ''65536'' = Some 65536"
  "int_of_str ''-1'' = Some (- 1)" "int_of_str ''abc'' = None" "int_of_str ''8123'' = Some 8123"
  by (simp_all add: int_of_str_defs)

text \<open>
  Claim C4. For every string, \<^verbatim>\<open>network_port\<close> succeeds exactly when \<^verbatim>\<open>int\<close> accepts
  the string and the integer lies between 1 and 65535, and it returns that integer. The
  coercion runs first: \<^verbatim>\<open>"0"\<close>, \<^verbatim>\<open>"65536"\<close> and \<^verbatim>\<open>"-1"\<close> are coerced and then fail
  the range check, \<^verbatim>\<open>"abc"\<close> fails the coercion.
\<close>

theorem network_port_string:
  "network_port (VStr s) =
     (case int_of_str s of
        None \<Rightarrow> Inl CoerceInvalid
      | Some n \<Rightarrow> if 1 \<le> n \<and> n \<le> 65535 then Inr (VInt n) else Inl RangeInvalid)
   \<and> ((\<exists>v. network_port (VStr s) = Inr v) = (\<exists>n. int_of_str s = Some n \<and> 1 \<le> n \<and> n \<le> 65535))
   \<and> vol_Coerce_int (VStr ''0'') = Inr (VInt 0) \<and> network_port (VStr ''0'') = Inl RangeInvalid
   \<and> vol_Coerce_int (VStr ''65536'') = Inr (VInt 65536) \<and> network_port (VStr ''65536'') = Inl RangeInvalid
   \<and> vol_Coerce_int (VStr ''-1'') = Inr (VInt (- 1)) \<and> network_port (VStr ''-1'') = Inl RangeInvalid
   \<and> vol_Coerce_int (VStr ''abc'') = Inl CoerceInvalid \<and> network_port (VStr ''abc'') = Inl CoerceInvalid"
proof -
  have gen: "network_port (VStr s) =
     (case int_of_str s of
        None \<Rightarrow> Inl CoerceInvalid
      | Some n \<Rightarrow> if 1 \<le> n \<and> n \<le> 65535 then Inr (VInt n) else Inl RangeInvalid)" for s
    unfolding network_port_def int_range_pipeline by (simp split: option.splits)
  have ex: "(\<exists>v. network_port (VStr s) = Inr v) = (\<exists>n. int_of_str s = Some n \<and> 1 \<le> n \<and> n \<le> 65535)"
    unfolding gen by (cases "int_of_str s") auto
  show ?thesis
    using gen [of s] ex by (simp add: gen vol_Coerce_int_def int_of_str_examples)
qed

theorem network_port_string_witness:
  "network_port (VStr ''8123'') = Inr (VInt 8123)"
  using network_port_string [of "''8123''"] by (simp add: int_of_str_examples)

subsection \<open>The two \<^verbatim>\<open>wait_boot\<close> validators\<close>

lemmas ATTR_defs = ATTR_UUID_def ATTR_VERSION_def ATTR_IMAGE_def ATTR_ACCESS_TOKEN_def
  ATTR_BOOT_def ATTR_PORT_def ATTR_REFRESH_TOKEN_def ATTR_SSL_def ATTR_WATCHDOG_def
  ATTR_WAIT_BOOT_def ATTR_AUDIO_OUTPUT_def ATTR_AUDIO_INPUT_def ATTR_TIMEZONE_def
  ATTR_LAST_BOOT_def ATTR_ADDONS_CUSTOM_LIST_def ATTR_LOGGING_def ATTR_DEBUG_def
  ATTR_DEBUG_BLOCK_def ATTR_SESSION_def ATTR_PORTS_def

lemma supervisor_wait_boot_field:
  "schema_of (SUPERVISOR_CONFIG_fields e) ATTR_WAIT_BOOT = Some (stateless wait_boot)"
  by (simp add: schema_of_def SUPERVISOR_CONFIG_fields_def ATTR_defs)

lemma hass_wait_boot_field:
  "schema_of (HASS_CONFIG_fields e) ATTR_WAIT_BOOT = Some (stateless hass_wait_boot)"
  by (simp add: schema_of_def HASS_CONFIG_fields_def ATTR_defs)

text \<open>
  Claim C1, amended. The bounds are the other way round: the \<^verbatim>\<open>wait_boot\<close> field of
  \<^verbatim>\<open>SCHEMA_SUPERVISOR_CONFIG\<close> uses the validator \<^verbatim>\<open>wait_boot\<close>, which succeeds exactly
  when the coerced integer lies between 1 and 60; the \<^verbatim>\<open>wait_boot\<close> field of
  \<^verbatim>\<open>SCHEMA_HASS_CONFIG\<close> succeeds exactly when the coerced integer is at least 60, with no
  upper bound.
\<close>

theorem wait_boot_bounds:
  "map_option (\<lambda>f. f v n) (schema_of (SUPERVISOR_CONFIG_fields e) ATTR_WAIT_BOOT) =
     Some (case py_int v of
             Inl ex \<Rightarrow> if ex = ''ValueError'' \<or> ex = ''TypeError'' then Inl CoerceInvalid
                       else Inl (Uncaught ex)
           | Inr k \<Rightarrow> if 1 \<le> k \<and> k \<le> 60 then Inr (VInt k) else Inl RangeInvalid, n)
   \<and> ((\<exists>r. wait_boot v = Inr r) = (\<exists>k. py_int v = Inr k \<and> 1 \<le> k \<and> k \<le> 60))
   \<and> map_option (\<lambda>f. f v n) (schema_of (HASS_CONFIG_fields e) ATTR_WAIT_BOOT) =
     Some (case py_int v of
             Inl ex \<Rightarrow> if ex = ''ValueError'' \<or> ex = ''TypeError'' then Inl CoerceInvalid
                       else Inl (Uncaught ex)
           | Inr k \<Rightarrow> if 60 \<le> k then Inr (VInt k) else Inl RangeInvalid, n)
   \<and> ((\<exists>r. hass_wait_boot v = Inr r) = (\<exists>k. py_int v = Inr k \<and> 60 \<le> k))"
proof -
  have a: "wait_boot v = (case py_int v of
             Inl ex \<Rightarrow> if ex = ''ValueError'' \<or> ex = ''TypeError'' then Inl CoerceInvalid
                       else Inl (Uncaught ex)
           | Inr k \<Rightarrow> if 1 \<le> k \<and> k \<le> 60 then Inr (VInt k) else Inl RangeInvalid)"
    unfolding wait_boot_def int_range_pipeline by (simp split: sum.splits)
  have b: "hass_wait_boot v = (case py_int v of
             Inl ex \<Rightarrow> if ex = ''ValueError'' \<or> ex = ''TypeError'' then Inl CoerceInvalid
                       else Inl (Uncaught ex)
           | Inr k \<Rightarrow> if 60 \<le> k then Inr (VInt k) else Inl RangeInvalid)"
    unfolding hass_wait_boot_def int_range_pipeline by (simp split: sum.splits)
  have a': "(\<exists>r. wait_boot v = Inr r) = (\<exists>k. py_int v = Inr k \<and> 1 \<le> k \<and> k \<le> 60)"
    unfolding a by (cases "py_int v") auto
  have b': "(\<exists>r. hass_wait_boot v = Inr r) = (\<exists>k. py_int v = Inr k \<and> 60 \<le> k)"
    unfolding b by (cases "py_int v") auto
  show ?thesis
    using a' b' by (simp add: supervisor_wait_boot_field hass_wait_boot_field stateless_def a b)
qed

theorem wait_boot_bounds_witness:
  "map_option (\<lambda>f. f (VStr ''30'') 0) (schema_of (SUPERVISOR_CONFIG_fields env0) ATTR_WAIT_BOOT) =
     Some (Inr (VInt 30), 0)
   \<and> map_option (\<lambda>f. f (VStr ''30'') 0) (schema_of (HASS_CONFIG_fields env0) ATTR_WAIT_BOOT) =
     Some (Inl RangeInvalid, 0)"
  using wait_boot_bounds [of "VStr ''30''" 0 env0] by (simp add: int_of_str_defs)

text \<open>
  Claim C1 as stated fails: the supervisor-level field accepts 5, its own default, which is
  below 60, and the Home Assistant field accepts 600, its own default, which is above 60.
\<close>

theorem wait_boot_counterexample:
  "map_option (\<lambda>f. f (VInt 5) 0) (schema_of (SUPERVISOR_CONFIG_fields env0) ATTR_WAIT_BOOT) =
     Some (Inr (VInt 5), 0)
   \<and> py_int (VInt 5) = Inr 5 \<and> \<not> 60 \<le> (5::int)
   \<and> map_option (\<lambda>f. f (VInt 600) 0) (schema_of (HASS_CONFIG_fields env0) ATTR_WAIT_BOOT) =
     Some (Inr (VInt 600), 0)
   \<and> py_int (VInt 600) = Inr 600 \<and> \<not> 600 \<le> (60::int)"
  unfolding supervisor_wait_boot_field hass_wait_boot_field stateless_def
    wait_boot_def hass_wait_boot_def int_range_pipeline
  by simp

subsection \<open>Dictionaries\<close>

lemma dict_set_map_fst:
  "map fst (dict_set d k v) = (if k \<in> set (map fst d) then map fst d else map fst d @ [k])"
  by (induction d) (auto simp: rev_image_eqI)

lemma dict_set_keys: "fst ` set (dict_set d k v) = insert k (fst ` set d)"
proof -
  have "set (map fst (dict_set d k v)) = insert k (set (map fst d))"
    unfolding dict_set_map_fst by auto
  then show ?thesis by simp
qed

text \<open>
  Claim C10. \<^verbatim>\<open>SCHEMA_INGRESS_CONFIG\<close> turns the empty mapping into
  \<^verbatim>\<open>{session: {}, ports: {}}\<close>: both fields are required, both have the default
  \<^verbatim>\<open>dict\<close>, and whatever the input is, no required field is missing once the defaults
  are in.
\<close>

theorem ingress_empty:
  "SCHEMA_INGRESS_CONFIG e (VDict []) n =
     (Inr (VDict [(ATTR_SESSION, VDict []), (ATTR_PORTS, VDict [])]), n)
   \<and> missing_required (INGRESS_CONFIG_fields e)
       (fst (insert_defaults (INGRESS_CONFIG_fields e) (dict_of_items items) n)) = []"
proof -
  have 1: "SCHEMA_INGRESS_CONFIG e (VDict []) n =
     (Inr (VDict [(ATTR_SESSION, VDict []), (ATTR_PORTS, VDict [])]), n)"
    by (simp add: SCHEMA_INGRESS_CONFIG_def INGRESS_CONFIG_fields_def Schema_def dict_of_items_def
        dict_default_def ATTR_defs stateless_def Schema_dynamic_def missing_required_def)
  have 2: "missing_required (INGRESS_CONFIG_fields e)
       (fst (insert_defaults (INGRESS_CONFIG_fields e) d n)) = []" for d
    by (simp add: INGRESS_CONFIG_fields_def missing_required_def dict_default_def dict_set_keys)
  show ?thesis using 1 2 by simp
qed

theorem ingress_empty_witness:
  "SCHEMA_INGRESS_CONFIG env0 (VDict []) 0 = (Inr (VDict [(''session'', VDict []), (''ports'', VDict [])]), 0)"
  using ingress_empty [of env0 0 "[]"] by (simp add: ATTR_defs)

subsection \<open>List validators\<close>

lemma validate_sequence_collect:
  assumes "\<And>x ex. x \<in> set xs \<Longrightarrow> f x \<noteq> Inl (Uncaught ex)"
  shows "validate_sequence f xs out errs =
           (if errs @ collected_errors f xs \<noteq> [] then Inl (MultipleInvalid (errs @ collected_errors f xs))
            else Inr (VList (out @ collected_values f xs)))"
  using assms
proof (induction xs arbitrary: out errs)
  case Nil
  then show ?case by (simp add: collected_errors_def collected_values_def)
next
  case (Cons x xs)
  have nu: "\<And>ex. f x \<noteq> Inl (Uncaught ex)" using Cons.prems by simp
  have ih: "\<And>out errs. validate_sequence f xs out errs =
           (if errs @ collected_errors f xs \<noteq> [] then Inl (MultipleInvalid (errs @ collected_errors f xs))
            else Inr (VList (out @ collected_values f xs)))"
    using Cons.IH Cons.prems by simp
  show ?case
  proof (cases "f x")
    case (Inr c)
    then show ?thesis by (simp add: ih collected_errors_def collected_values_def)
  next
    case (Inl e)
    from nu Inl have ne: "\<forall>ex. e \<noteq> Uncaught ex" by auto
    from Inl ne show ?thesis
      by (cases e) (simp_all add: ih collected_errors_def collected_values_def)
  qed
qed

lemma collected_all_pass:
  assumes "\<And>x. x \<in> set xs \<Longrightarrow> f x = Inr x"
  shows "collected_errors f xs = [] \<and> collected_values f xs = xs"
  using assms by (induction xs) (simp_all add: collected_errors_def collected_values_def)

lemma collected_errors_empty_iff:
  "(collected_errors f xs = []) = list_all (\<lambda>x. \<exists>c. f x = Inr c) xs"
  by (induction xs) (auto simp: collected_errors_def split: sum.splits)

lemma dns_url_str_cases:
  "dns_url (VStr x) = Inr (VStr x) \<or> (\<exists>m. dns_url (VStr x) = Inl (Invalid m))"
  by (simp add: dns_url_def Let_def split: option.splits)

lemma dns_url_not_uncaught: "dns_url (VStr x) \<noteq> Inl (Uncaught ex)"
  using dns_url_str_cases [of x] by auto

lemma dns_url_Inr: "dns_url (VStr x) = Inr c \<Longrightarrow> c = VStr x"
  using dns_url_str_cases [of x] by auto

lemma dns_server_list_length_first:
  "dns_server_list (VList vs) =
     (if length vs > 8 then Inl LengthInvalid else validate_sequence dns_url vs [] [])"
  unfolding dns_server_list_def vol_All_pair by (simp add: vol_Length_def vol_Sequence_def)

lemma collected_values_str:
  assumes "\<And>x c. g (VStr x) = Inr c \<Longrightarrow> c = VStr x"
    and "collected_errors g (map VStr xs) = []"
  shows "collected_values g (map VStr xs) = map VStr xs"
  using assms
  by (induction xs) (auto simp: collected_errors_def collected_values_def split: sum.splits)

lemma str_sequence:
  assumes "\<And>x ex. g (VStr x) \<noteq> Inl (Uncaught ex)"
    and "\<And>x c. g (VStr x) = Inr c \<Longrightarrow> c = VStr x"
  shows "validate_sequence g (map VStr xs) [] [] =
           (if list_all (\<lambda>x. g (VStr x) = Inr (VStr x)) xs then Inr (VList (map VStr xs))
            else Inl (MultipleInvalid (collected_errors g (map VStr xs))))"
proof -
  have nu: "\<And>v ex. v \<in> set (map VStr xs) \<Longrightarrow> g v \<noteq> Inl (Uncaught ex)"
    using assms(1) by auto
  have iff: "(collected_errors g (map VStr xs) = []) = list_all (\<lambda>x. g (VStr x) = Inr (VStr x)) xs"
    unfolding collected_errors_empty_iff using assms(2) by (auto simp: list_all_iff)
  have vs: "validate_sequence g (map VStr xs) [] [] =
           (if [] @ collected_errors g (map VStr xs) \<noteq> []
            then Inl (MultipleInvalid ([] @ collected_errors g (map VStr xs)))
            else Inr (VList ([] @ collected_values g (map VStr xs))))"
    by (rule validate_sequence_collect) (use nu in auto)
  show ?thesis
    unfolding vs using iff collected_values_str [of g xs, OF assms(2)] by auto
qed

text \<open>
  Claim C7. \<^verbatim>\<open>dns_server_list\<close> checks the length first: a list of 9 or more elements
  fails with \<^verbatim>\<open>LengthInvalid\<close> whatever its elements are, and only a list of at most 8
  elements has its elements validated. A list of at most 8 strings that are all valid
  \<^verbatim>\<open>dns://\<close> URLs is returned as it is.
\<close>

theorem dns_server_list_cap:
  "dns_server_list (VList vs) =
     (if length vs > 8 then Inl LengthInvalid else validate_sequence dns_url vs [] [])
   \<and> dns_server_list (VList (map VStr xs)) =
     (if length xs > 8 then Inl LengthInvalid
      else if list_all (\<lambda>x. dns_url (VStr x) = Inr (VStr x)) xs then Inr (VList (map VStr xs))
      else Inl (MultipleInvalid (collected_errors dns_url (map VStr xs))))"
  unfolding dns_server_list_length_first
  using str_sequence [of dns_url xs, OF dns_url_not_uncaught dns_url_Inr] by simp


subsection \<open>DNS servers\<close>

lemmas ip_defs = ip_address_def IPv4Address_def ipv4_int_from_string_def parse_octet_def
  decimal_val_def is_digit_def digit_val_def

lemma lower_dns: "lower ''dns://'' = ''dns://''"
  by (simp add: lower_def lower_char_def)

lemma dns_url_example: "dns_url (VStr ''dns://192.168.1.1'') = Inr (VStr ''dns://192.168.1.1'')"
  by (simp add: dns_url_def startswith_def lower_def lower_char_def ip_defs)

theorem dns_server_list_cap_witness:
  "dns_server_list (VList (replicate 9 (VInt 0))) = Inl LengthInvalid
   \<and> dns_server_list (VList (map VStr (replicate 9 ''dns://192.168.1.1''))) = Inl LengthInvalid
   \<and> dns_server_list (VList (map VStr (replicate 8 ''dns://192.168.1.1''))) =
       Inr (VList (map VStr (replicate 8 ''dns://192.168.1.1'')))"
  using dns_server_list_cap [of "replicate 9 (VInt 0)" "replicate 9 ''dns://192.168.1.1''"]
    dns_server_list_cap [of "[]" "replicate 8 ''dns://192.168.1.1''"]
  by (simp add: dns_url_example list_all_length)

subsection \<open>Repositories\<close>

lemma vol_Url_cases: "vol_Url v = Inr v \<or> vol_Url v = Inl UrlInvalid"
  by (simp add: vol_Url_def split: pyval.splits option.splits)

lemma validate_repository_str_cases:
  "validate_repository (VStr x) = Inr (VStr x)
   \<or> validate_repository (VStr x) = Inl (Invalid ''No valid repository format!'')
   \<or> validate_repository (VStr x) = Inl UrlInvalid"
proof (cases "re_match RE_REPOSITORY x")
  case None
  then show ?thesis by (simp add: validate_repository_def)
next
  case (Some data)
  show ?thesis
    using vol_Url_cases [of "case group data ''url'' of None \<Rightarrow> VNone | Some u \<Rightarrow> VStr u"]
    by (auto simp: validate_repository_def Some)
qed

lemma validate_repository_not_uncaught: "validate_repository (VStr x) \<noteq> Inl (Uncaught ex)"
  using validate_repository_str_cases [of x] by auto

lemma validate_repository_Inr: "validate_repository (VStr x) = Inr c \<Longrightarrow> c = VStr x"
  using validate_repository_str_cases [of x] by auto

lemma py_eq_str: "py_eq (VStr a) v = (v = VStr a)"
  by (cases v) (auto simp: py_eq_def split: option.splits)

lemma py_distinct_str: "py_distinct (map VStr xs) = distinct xs"
  by (induction xs) (auto simp: py_eq_str list_ex_iff)

lemma vol_Unique_str:
  "vol_Unique (VList (map VStr xs)) =
     (if distinct xs then Inr (VList (map VStr xs)) else Inl (Invalid ''contains duplicate items''))"
  by (simp add: vol_Unique_def py_distinct_str list_all_iff)

text \<open>
  Claim C6. On a list of strings, \<^verbatim>\<open>repositories\<close> first validates every element with
  \<^verbatim>\<open>validate_repository\<close>; when an element fails, the errors of the elements are raised.
  When every element is valid, the list is rejected with the error of \<^verbatim>\<open>vol.Unique\<close> if
  two elements are equal, and returned in the order of the input if they are pairwise
  distinct.
\<close>

theorem repositories_unique:
  "repositories (VList (map VStr xs)) =
     (if list_all (\<lambda>x. validate_repository (VStr x) = Inr (VStr x)) xs
      then (if distinct xs then Inr (VList (map VStr xs))
            else Inl (Invalid ''contains duplicate items''))
      else Inl (MultipleInvalid (collected_errors validate_repository (map VStr xs))))"
  unfolding repositories_def vol_All_pair
  using str_sequence [of validate_repository xs,
      OF validate_repository_not_uncaught validate_repository_Inr]
  by (simp add: vol_Sequence_def vol_Unique_str)


lemmas re_defs = re_match_def RE_REPOSITORY_def group_def not_hash_def branch_char_def
  is_word_def is_ascii_alpha_def is_digit_def

lemmas url_defs = vol_Url_def urlsplit_def c0_control_or_space_def scheme_char_def
  is_ascii_alpha_def is_digit_def lower_def lower_char_def Let_def

lemma re_match_examples:
  "re_match RE_REPOSITORY ''https://github.com/org/repo'' =
     Some [(''url'', ''https://github.com/org/repo'')]"
  "re_match RE_REPOSITORY ''https://github.com/org/repo#dev'' =
     Some [(''branch'', ''dev''), (''url'', ''https://github.com/org/repo'')]"
  "re_match RE_REPOSITORY ''not a url#dev'' = Some [(''branch'', ''dev''), (''url'', ''not a url'')]"
  by (simp_all add: re_defs)

lemma vol_Url_examples:
  "vol_Url (VStr ''https://github.com/org/repo'') = Inr (VStr ''https://github.com/org/repo'')"
  "vol_Url (VStr ''not a url'') = Inl UrlInvalid"
  by (simp_all add: url_defs)

lemma validate_repository_examples:
  "validate_repository (VStr ''https://github.com/org/repo'') =
     Inr (VStr ''https://github.com/org/repo'')"
  "validate_repository (VStr ''https://github.com/org/repo#dev'') =
     Inr (VStr ''https://github.com/org/repo#dev'')"
  "validate_repository (VStr ''not a url#dev'') = Inl UrlInvalid"
  by (simp_all add: validate_repository_def re_match_examples vol_Url_examples group_def)

theorem repositories_unique_witness:
  "repositories (VList (map VStr [''https://github.com/org/repo'', ''https://github.com/org/repo'']))
     = Inl (Invalid ''contains duplicate items'')
   \<and> repositories
       (VList (map VStr [''https://github.com/org/repo#dev'', ''https://github.com/org/repo'']))
     = Inr (VList (map VStr [''https://github.com/org/repo#dev'', ''https://github.com/org/repo'']))
   \<and> repositories (VList (map VStr [''not a url#dev'', ''not a url#dev'']))
     = Inl (MultipleInvalid [UrlInvalid, UrlInvalid])"
  using repositories_unique [of "[''https://github.com/org/repo'', ''https://github.com/org/repo'']"]
    repositories_unique [of "[''https://github.com/org/repo#dev'', ''https://github.com/org/repo'']"]
    repositories_unique [of "[''not a url#dev'', ''not a url#dev'']"]
  by (simp add: validate_repository_examples collected_errors_def)

subsection \<open>DNS URLs\<close>

lemma of_char_lower_char:
  "(of_char (lower_char c) :: nat) =
     (if (0x41 \<le> (of_char c :: nat) \<and> (of_char c :: nat) \<le> 0x5A)
         \<or> (0xC0 \<le> (of_char c :: nat) \<and> (of_char c :: nat) \<le> 0xDE \<and> (of_char c :: nat) \<noteq> 0xD7)
      then of_char c + 32 else of_char c)"
  by (simp add: lower_char_def Let_def)

lemma lower_char_eq: "(lower_char c = x) = ((of_char (lower_char c) :: nat) = of_char x)"
  by simp

lemma char_eq: "(c = x) = ((of_char c :: nat) = of_char x)"
  by simp

lemma lower_char_letters:
  "(lower_char c = CHR ''d'') = (c = CHR ''d'' \<or> c = CHR ''D'')"
  "(lower_char c = CHR ''n'') = (c = CHR ''n'' \<or> c = CHR ''N'')"
  "(lower_char c = CHR ''s'') = (c = CHR ''s'' \<or> c = CHR ''S'')"
  "(lower_char c = CHR '':'') = (c = CHR '':'')"
  "(lower_char c = CHR ''/'') = (c = CHR ''/'')"
  unfolding lower_char_eq of_char_lower_char
  by (simp_all add: char_eq [of c]) arith+


lemma take6_eq:
  "(take 6 xs = [a, b, c, d, e, f]) = (\<exists>rest. xs = a # b # c # d # e # f # rest)"
proof
  assume h: "take 6 xs = [a, b, c, d, e, f]"
  have "xs = take 6 xs @ drop 6 xs" by simp
  then have "xs = a # b # c # d # e # f # drop 6 xs" unfolding h by simp
  then show "\<exists>rest. xs = a # b # c # d # e # f # rest" by blast
next
  assume "\<exists>rest. xs = a # b # c # d # e # f # rest"
  then show "take 6 xs = [a, b, c, d, e, f]" by auto
qed

lemma startswith_dns:
  "startswith (lower url) ''dns://'' =
     (\<exists>c1 c2 c3 rest. url = c1 # c2 # c3 # CHR '':'' # CHR ''/'' # CHR ''/'' # rest
        \<and> (c1 = CHR ''d'' \<or> c1 = CHR ''D'') \<and> (c2 = CHR ''n'' \<or> c2 = CHR ''N'')
        \<and> (c3 = CHR ''s'' \<or> c3 = CHR ''S''))"
proof -
  have len: "length ''dns://'' = 6" by simp
  have "startswith (lower url) ''dns://'' = (take 6 (map lower_char url) = ''dns://'')"
    unfolding startswith_def lower_def len ..
  also have "\<dots> = (\<exists>rest. map lower_char url =
      CHR ''d'' # CHR ''n'' # CHR ''s'' # CHR '':'' # CHR ''/'' # CHR ''/'' # rest)"
    by (rule take6_eq)
  also have "\<dots> = (\<exists>c1 c2 c3 rest. url = c1 # c2 # c3 # CHR '':'' # CHR ''/'' # CHR ''/'' # rest
        \<and> (c1 = CHR ''d'' \<or> c1 = CHR ''D'') \<and> (c2 = CHR ''n'' \<or> c2 = CHR ''N'')
        \<and> (c3 = CHR ''s'' \<or> c3 = CHR ''S''))"
  proof
    assume "\<exists>rest. map lower_char url =
      CHR ''d'' # CHR ''n'' # CHR ''s'' # CHR '':'' # CHR ''/'' # CHR ''/'' # rest"
    then obtain r0 where m: "map lower_char url =
      CHR ''d'' # CHR ''n'' # CHR ''s'' # CHR '':'' # CHR ''/'' # CHR ''/'' # r0" ..
    from m obtain c1 u1 where 1: "url = c1 # u1" "lower_char c1 = CHR ''d''"
      "map lower_char u1 = CHR ''n'' # CHR ''s'' # CHR '':'' # CHR ''/'' # CHR ''/'' # r0"
      by (auto simp: map_eq_Cons_conv)
    from 1(3) obtain c2 u2 where 2: "u1 = c2 # u2" "lower_char c2 = CHR ''n''"
      "map lower_char u2 = CHR ''s'' # CHR '':'' # CHR ''/'' # CHR ''/'' # r0"
      by (auto simp: map_eq_Cons_conv)
    from 2(3) obtain c3 u3 where 3: "u2 = c3 # u3" "lower_char c3 = CHR ''s''"
      "map lower_char u3 = CHR '':'' # CHR ''/'' # CHR ''/'' # r0"
      by (auto simp: map_eq_Cons_conv)
    from 3(3) obtain c4 u4 where 4: "u3 = c4 # u4" "lower_char c4 = CHR '':''"
      "map lower_char u4 = CHR ''/'' # CHR ''/'' # r0"
      by (auto simp: map_eq_Cons_conv)
    from 4(3) obtain c5 u5 where 5: "u4 = c5 # u5" "lower_char c5 = CHR ''/''"
      "map lower_char u5 = CHR ''/'' # r0"
      by (auto simp: map_eq_Cons_conv)
    from 5(3) obtain c6 u6 where 6: "u5 = c6 # u6" "lower_char c6 = CHR ''/''"
      by (auto simp: map_eq_Cons_conv)
    have "url = c1 # c2 # c3 # CHR '':'' # CHR ''/'' # CHR ''/'' # u6
        \<and> (c1 = CHR ''d'' \<or> c1 = CHR ''D'') \<and> (c2 = CHR ''n'' \<or> c2 = CHR ''N'')
        \<and> (c3 = CHR ''s'' \<or> c3 = CHR ''S'')"
      using 1(1,2) 2(1,2) 3(1,2) 4(1,2) 5(1,2) 6 by (simp add: lower_char_letters)
    then show "\<exists>c1 c2 c3 rest. url = c1 # c2 # c3 # CHR '':'' # CHR ''/'' # CHR ''/'' # rest
        \<and> (c1 = CHR ''d'' \<or> c1 = CHR ''D'') \<and> (c2 = CHR ''n'' \<or> c2 = CHR ''N'')
        \<and> (c3 = CHR ''s'' \<or> c3 = CHR ''S'')" by (intro exI)
  next
    assume "\<exists>c1 c2 c3 rest. url = c1 # c2 # c3 # CHR '':'' # CHR ''/'' # CHR ''/'' # rest
        \<and> (c1 = CHR ''d'' \<or> c1 = CHR ''D'') \<and> (c2 = CHR ''n'' \<or> c2 = CHR ''N'')
        \<and> (c3 = CHR ''s'' \<or> c3 = CHR ''S'')"
    then obtain c1 c2 c3 rest where u: "url = c1 # c2 # c3 # CHR '':'' # CHR ''/'' # CHR ''/'' # rest"
      and c: "lower_char c1 = CHR ''d''" "lower_char c2 = CHR ''n''" "lower_char c3 = CHR ''s''"
      unfolding lower_char_letters by (elim exE conjE)
    have "lower_char CHR '':'' = CHR '':''" "lower_char CHR ''/'' = CHR ''/''"
      by (simp_all add: lower_char_letters)
    then show "\<exists>rest. map lower_char url =
      CHR ''d'' # CHR ''n'' # CHR ''s'' # CHR '':'' # CHR ''/'' # CHR ''/'' # rest"
      unfolding u using c by simp
  qed
  finally show ?thesis .
qed


lemma split_on_no_sep: "c \<notin> set s \<Longrightarrow> split_on c s = [s]"
  by (induction s) auto

lemma split_on_chars:
  "x \<in> set s \<Longrightarrow> x = c \<or> (\<exists>p \<in> set (split_on c s). x \<in> set p)"
  by (induction s) (auto split: list.splits)

lemma sequence_opt_Some: "sequence_opt xs = Some ys \<Longrightarrow> None \<notin> set xs"
  by (induction xs arbitrary: ys rule: sequence_opt.induct) auto

lemma parse_octet_digits: "parse_octet p \<noteq> None \<Longrightarrow> list_all is_digit p"
  by (auto simp: parse_octet_def split: if_splits)

lemma ipv4_chars:
  assumes "ipv4_int_from_string a = Some ip" and "x \<in> set a"
  shows "is_digit x \<or> x = CHR ''.''"
proof -
  from assms(1) obtain ys where "sequence_opt (map parse_octet (split_on CHR ''.'' a)) = Some ys"
    by (auto simp: ipv4_int_from_string_def Let_def split: if_splits)
  then have "None \<notin> set (map parse_octet (split_on CHR ''.'' a))"
    by (rule sequence_opt_Some)
  then have d: "\<And>p. p \<in> set (split_on CHR ''.'' a) \<Longrightarrow> list_all is_digit p"
    using parse_octet_digits by force
  from split_on_chars [OF assms(2), of "CHR ''.''"] d show ?thesis
    by (auto simp: list_all_iff)
qed

lemma ipv6_colon: "ipv6_int_from_string a = Some ip \<Longrightarrow> CHR '':'' \<in> set a"
proof (rule ccontr)
  assume h: "ipv6_int_from_string a = Some ip" and n: "CHR '':'' \<notin> set a"
  from n have "split_on CHR '':'' a = [a]" by (rule split_on_no_sep)
  then have "ipv6_int_from_string a = None"
    by (simp add: ipv6_int_from_string_def)
  with h show False by simp
qed

lemma IPv6Address_colon: "IPv6Address a = Some r \<Longrightarrow> CHR '':'' \<in> set a"
proof -
  assume "IPv6Address a = Some r"
  then obtain addr sc ip where s: "split_scope_id a = Some (addr, sc)"
    and i: "ipv6_int_from_string addr = Some ip"
    by (auto simp: IPv6Address_def split: if_splits option.splits)
  from s have "addr = takeWhile (\<lambda>c. c \<noteq> CHR ''%'') a"
    by (auto simp: split_scope_id_def Let_def split: list.splits if_splits)
  then have "set addr \<subseteq> set a" by (auto dest: set_takeWhileD)
  with ipv6_colon [OF i] show ?thesis by auto
qed

lemma ip_address_shape:
  "ip_address a = None \<or> CHR '':'' \<in> set a \<or> list_all (\<lambda>c. is_digit c \<or> c = CHR ''.'') a"
proof (cases "IPv4Address a")
  case (Some ip)
  then have "ipv4_int_from_string a = Some ip"
    by (simp add: IPv4Address_def split: if_splits)
  then show ?thesis using ipv4_chars by (auto simp: list_all_iff)
next
  case None
  show ?thesis
  proof (cases "IPv6Address a")
    case None
    with \<open>IPv4Address a = None\<close> show ?thesis by (simp add: ip_address_def)
  next
    case (Some r)
    then show ?thesis using IPv6Address_colon by simp
  qed
qed

lemma dns_url_examples:
  "dns_url (VStr ''http://192.168.1.1'') = Inl (Invalid ''Doesn't start with dns://'')"
  "dns_url (VStr ''dns://not-an-ip'') = Inl (Invalid ''Invalid DNS URL: dns://not-an-ip'')"
  by (simp_all add: dns_url_def startswith_def lower_def lower_char_def ip_defs
      IPv6Address_def split_scope_id_def ipv6_int_from_string_def)

text \<open>
  Claim C3. \<^verbatim>\<open>dns_url\<close> returns its input unchanged exactly when the input starts with
  \<^verbatim>\<open>dns://\<close>, in any mix of upper and lower case, and the rest after the first six
  characters is accepted by \<^verbatim>\<open>ip_address\<close>. Otherwise it fails: with the scheme error
  when the prefix is wrong, with the address error when the rest is not an IP literal. A
  rest without a colon is only accepted when it is made of digits and dots, so no host
  name passes.
\<close>

theorem dns_url_accepts:
  "(dns_url (VStr url) = Inr (VStr url)) =
     (\<exists>c1 c2 c3 rest. url = c1 # c2 # c3 # CHR '':'' # CHR ''/'' # CHR ''/'' # rest
        \<and> (c1 = CHR ''d'' \<or> c1 = CHR ''D'') \<and> (c2 = CHR ''n'' \<or> c2 = CHR ''N'')
        \<and> (c3 = CHR ''s'' \<or> c3 = CHR ''S'') \<and> ip_address rest \<noteq> None)
   \<and> (dns_url (VStr url) = Inr (VStr url)
        \<or> dns_url (VStr url) = Inl (Invalid ''Doesn't start with dns://'')
        \<or> dns_url (VStr url) = Inl (Invalid (''Invalid DNS URL: '' @ url)))
   \<and> (ip_address a = None \<or> CHR '':'' \<in> set a
        \<or> list_all (\<lambda>c. is_digit c \<or> c = CHR ''.'') a)
   \<and> dns_url (VStr ''dns://192.168.1.1'') = Inr (VStr ''dns://192.168.1.1'')
   \<and> dns_url (VStr ''http://192.168.1.1'') = Inl (Invalid ''Doesn't start with dns://'')
   \<and> dns_url (VStr ''dns://not-an-ip'') = Inl (Invalid ''Invalid DNS URL: dns://not-an-ip'')"
proof -
  have iff: "(dns_url (VStr url) = Inr (VStr url)) =
     (startswith (lower url) ''dns://'' \<and> ip_address (drop 6 url) \<noteq> None)"
    by (auto simp: dns_url_def Let_def split: option.splits)
  have 1: "(dns_url (VStr url) = Inr (VStr url)) =
     (\<exists>c1 c2 c3 rest. url = c1 # c2 # c3 # CHR '':'' # CHR ''/'' # CHR ''/'' # rest
        \<and> (c1 = CHR ''d'' \<or> c1 = CHR ''D'') \<and> (c2 = CHR ''n'' \<or> c2 = CHR ''N'')
        \<and> (c3 = CHR ''s'' \<or> c3 = CHR ''S'') \<and> ip_address rest \<noteq> None)"
    unfolding iff startswith_dns by auto
  have 2: "dns_url (VStr url) = Inr (VStr url)
        \<or> dns_url (VStr url) = Inl (Invalid ''Doesn't start with dns://'')
        \<or> dns_url (VStr url) = Inl (Invalid (''Invalid DNS URL: '' @ url))"
    by (simp add: dns_url_def Let_def split: option.splits)
  show ?thesis
    using 1 2 ip_address_shape [of a] dns_url_example dns_url_examples by simp
qed

theorem dns_url_accepts_witness:
  "dns_url (VStr ''DNS://::1'') = Inr (VStr ''DNS://::1'')
   \<and> ip_address ''example.com'' = None"
  using dns_url_accepts [of "''DNS://::1''" "''example.com''"]
  by (simp add: ip_defs IPv6Address_def split_scope_id_def ipv6_int_from_string_def
      parse_hextet_def is_hex_def is_lower_hex_def hex_val_def)

subsection \<open>Regular expressions\<close>

lemma run_prefix:
  "(k \<le> length (takeWhile p xs)) = (k \<le> length xs \<and> list_all p (take k xs))"
proof (induction xs arbitrary: k)
  case Nil
  then show ?case by simp
next
  case (Cons x xs)
  show ?case
  proof (cases k)
    case 0
    then show ?thesis by simp
  next
    case (Suc j)
    then show ?thesis using Cons.IH [of j] by auto
  qed
qed

lemma rmatch_Bol_start: "rmatch (Cat Bol b) s (s, caps) = rmatch b s (s, caps)"
  by simp

lemma matches_Cat:
  "(rmatch (Cat a b) s st \<noteq> []) = (\<exists>st' \<in> set (rmatch a s st). rmatch b s st' \<noteq> [])"
  by auto

lemma set_rmatch_Rep:
  "set (rmatch (Rep p lo None) s (rest, caps)) =
     {(r, caps) | r. \<exists>a. rest = a @ r \<and> lo \<le> length a \<and> list_all p a}"
proof -
  have "set (rmatch (Rep p lo None) s (rest, caps)) =
          (\<lambda>k. (drop k rest, caps)) ` {k. lo \<le> k \<and> k \<le> length (takeWhile p rest)}"
    by (auto simp: Let_def)
  also have "\<dots> = {(r, caps) | r. \<exists>a. rest = a @ r \<and> lo \<le> length a \<and> list_all p a}"
  proof (intro set_eqI iffI)
    fix x
    assume "x \<in> (\<lambda>k. (drop k rest, caps)) ` {k. lo \<le> k \<and> k \<le> length (takeWhile p rest)}"
    then obtain k where k: "lo \<le> k" "k \<le> length (takeWhile p rest)" and x: "x = (drop k rest, caps)"
      by auto
    from k(2) have kl: "k \<le> length rest" and pa: "list_all p (take k rest)"
      unfolding run_prefix by auto
    have "rest = take k rest @ drop k rest" by simp
    moreover have "lo \<le> length (take k rest)" using k(1) kl by simp
    ultimately show "x \<in> {(r, caps) | r. \<exists>a. rest = a @ r \<and> lo \<le> length a \<and> list_all p a}"
      using x pa by blast
  next
    fix x
    assume "x \<in> {(r, caps) | r. \<exists>a. rest = a @ r \<and> lo \<le> length a \<and> list_all p a}"
    then obtain r a where x: "x = (r, caps)" and a: "rest = a @ r" "lo \<le> length a" "list_all p a"
      by auto
    have "length a \<le> length (takeWhile p rest)"
      unfolding run_prefix using a by simp
    moreover have "drop (length a) rest = r" using a(1) by simp
    ultimately show "x \<in> (\<lambda>k. (drop k rest, caps)) ` {k. lo \<le> k \<and> k \<le> length (takeWhile p rest)}"
      using x a(2) by force
  qed
  finally show ?thesis .
qed

lemma matches_Rep_Cat:
  "(rmatch (Cat (Rep p lo None) b) s (rest, caps) \<noteq> []) =
     (\<exists>a r. rest = a @ r \<and> lo \<le> length a \<and> list_all p a \<and> rmatch b s (r, caps) \<noteq> [])"
  unfolding matches_Cat set_rmatch_Rep by auto

lemma matches_Lit_Cat:
  "(rmatch (Cat (Lit c) b) s (rest, caps) \<noteq> []) =
     (\<exists>r. rest = c # r \<and> rmatch b s (r, caps) \<noteq> [])"
  by (cases rest) auto

lemma matches_Eol: "(rmatch Eol s (rest, caps) \<noteq> []) = (rest = [] \<or> rest = [CHR 0x0A])"
  by simp

lemma re_match_None: "(re_match r s = None) = (rmatch r s (s, []) = [])"
  by (auto simp: re_match_def split: list.splits)

lemma docker_image_re_matches:
  "(re_match docker_image_re s \<noteq> None) =
     (\<exists>ns nm nl. s = ns @ CHR ''/'' # nm @ nl \<and> ns \<noteq> [] \<and> list_all namespace_char ns
        \<and> nm \<noteq> [] \<and> list_all name_char nm \<and> (nl = [] \<or> nl = [CHR 0x0A]))"
  unfolding re_match_None docker_image_re_def rmatch_Bol_start matches_Rep_Cat matches_Lit_Cat
    matches_Eol
  by (simp add: Suc_le_eq) blast


lemma vol_Match_str:
  "vol_Match r (VStr s) = (if re_match r s \<noteq> None then Inr (VStr s) else Inl MatchInvalid)"
  by (auto simp: vol_Match_def split: option.splits)

lemmas docker_defs = docker_image_def vol_Match_def re_match_def docker_image_re_def
  namespace_char_def name_char_def is_word_def is_ascii_alpha_def is_digit_def

text \<open>
  Claim C2, amended. For every string that does not end in a line feed,
  \<^verbatim>\<open>docker_image\<close> succeeds exactly when the string is \<^verbatim>\<open>namespace/name\<close>, where the
  namespace is a non-empty run of word characters and braces and the name a non-empty
  run of word characters, braces and hyphens: a hyphen is permitted in the name only.
  Every string either comes back unchanged or fails with \<^verbatim>\<open>MatchInvalid\<close>.
\<close>

theorem docker_image_accepts:
  assumes "s = [] \<or> last s \<noteq> CHR 0x0A"
  shows "(docker_image (VStr s) = Inr (VStr s)) =
     (\<exists>ns nm. s = ns @ CHR ''/'' # nm \<and> ns \<noteq> [] \<and> list_all namespace_char ns
        \<and> nm \<noteq> [] \<and> list_all name_char nm)
   \<and> (docker_image (VStr s) = Inr (VStr s) \<or> docker_image (VStr s) = Inl MatchInvalid)
   \<and> name_char CHR ''-'' \<and> namespace_char CHR ''-'' = False"
proof -
  have 1: "(docker_image (VStr s) = Inr (VStr s)) = (re_match docker_image_re s \<noteq> None)"
    by (simp add: docker_image_def vol_Match_str)
  have 2: "docker_image (VStr s) = Inr (VStr s) \<or> docker_image (VStr s) = Inl MatchInvalid"
    by (simp add: docker_image_def vol_Match_str)
  have 3: "name_char CHR ''-''" "namespace_char CHR ''-'' = False"
    by (simp_all add: name_char_def namespace_char_def is_word_def is_ascii_alpha_def is_digit_def)
  have 4: "(docker_image (VStr s) = Inr (VStr s)) =
     (\<exists>ns nm. s = ns @ CHR ''/'' # nm \<and> ns \<noteq> [] \<and> list_all namespace_char ns
        \<and> nm \<noteq> [] \<and> list_all name_char nm)" (is "?L = ?R")
  proof
    assume ?L
    then obtain ns nm nl where s: "s = ns @ CHR ''/'' # nm @ nl" and ns: "ns \<noteq> []"
        "list_all namespace_char ns" and nm: "nm \<noteq> []" "list_all name_char nm"
        and nl: "nl = [] \<or> nl = [CHR 0x0A]"
      unfolding 1 docker_image_re_matches by (elim exE conjE)
    from nl have "nl = []"
    proof
      assume "nl = [CHR 0x0A]"
      with s have "s \<noteq> []" "last s = CHR 0x0A" by simp_all
      with assms show ?thesis by simp
    qed
    with s ns nm show ?R by (intro exI [of _ ns] exI [of _ nm]) simp
  next
    assume ?R
    then obtain ns nm where "s = ns @ CHR ''/'' # nm @ []" "ns \<noteq> []"
        "list_all namespace_char ns" "nm \<noteq> []" "list_all name_char nm"
      by (elim exE conjE) simp
    then have "\<exists>ns nm nl. s = ns @ CHR ''/'' # nm @ nl \<and> ns \<noteq> [] \<and> list_all namespace_char ns
        \<and> nm \<noteq> [] \<and> list_all name_char nm \<and> (nl = [] \<or> nl = [CHR 0x0A])"
      by (intro exI [of _ ns] exI [of _ nm] exI [of _ "[]"]) simp
    then show ?L unfolding 1 docker_image_re_matches .
  qed
  show ?thesis
    by (intro conjI) (rule 4, rule 2, rule 3(1), rule 3(2))
qed

theorem docker_image_accepts_witness:
  "docker_image (VStr ''homeassistant/{arch}-homeassistant'') =
     Inr (VStr ''homeassistant/{arch}-homeassistant'')"
  using docker_image_accepts [of "''homeassistant/{arch}-homeassistant''"]
  by (simp add: docker_defs)

text \<open>
  Claim C2 as stated fails: \<^verbatim>\<open>home-assistant/core\<close> has the form that the claim
  describes, with a hyphen in the first segment, and \<^verbatim>\<open>docker_image\<close> rejects it.
\<close>

theorem docker_image_counterexample:
  "spec_docker_image ''home-assistant/core''
   \<and> docker_image (VStr ''home-assistant/core'') = Inl MatchInvalid"
  by (simp add: docker_defs spec_docker_image_def spec_segment_char_def)

subsection \<open>The repository pattern\<close>

lemma rmatch_Grp_Rep:
  "rmatch (Grp name (Rep p lo None)) s (rest, caps) =
     map (\<lambda>k. (drop k rest, (name, take k rest) # caps))
       (rev [lo..<Suc (length (takeWhile p rest))])"
proof -
  have le: "length (takeWhile p rest) \<le> length rest"
    by (rule length_takeWhile_le)
  have "\<And>k. k \<in> set (rev [lo..<Suc (length (takeWhile p rest))]) \<Longrightarrow>
          length rest - length (drop k rest) = k"
    using le by auto
  then show ?thesis
    by (simp add: Let_def o_def cong: map_cong)
qed

lemma concat_map_Nil: "(\<And>x. x \<in> set xs \<Longrightarrow> f x = []) \<Longrightarrow> concat (map f xs) = []"
  by (induction xs) auto

lemma run_nth: "k < length (takeWhile p xs) \<Longrightarrow> p (xs ! k)"
  by (metis nth_mem set_takeWhileD takeWhile_nth)

lemma drop_below_run:
  assumes "k < length (takeWhile p xs)"
  shows "\<exists>r. drop k xs = (xs ! k) # r \<and> p (xs ! k)"
proof -
  have "k < length xs" using assms length_takeWhile_le [of p xs] by simp
  then have "drop k xs = (xs ! k) # drop (Suc k) xs" by (simp add: Cons_nth_drop_Suc)
  with run_nth [OF assms] show ?thesis by blast
qed

text \<open>A greedy run of a class without the line feed, then \<^verbatim>\<open>$\<close>: only the whole run can match.\<close>

lemma Rep_then_Eol:
  assumes nl: "\<not> p (CHR 0x0A)"
  shows "concat (map (rmatch Eol s)
           (map (\<lambda>k. (drop k rest, c k)) (rev [lo..<Suc (length (takeWhile p rest))]))) =
         (if lo \<le> length (takeWhile p rest)
             \<and> (drop (length (takeWhile p rest)) rest = []
                  \<or> drop (length (takeWhile p rest)) rest = [CHR 0x0A])
          then [(drop (length (takeWhile p rest)) rest, c (length (takeWhile p rest)))] else [])"
proof (cases "lo \<le> length (takeWhile p rest)")
  case False
  then show ?thesis by simp
next
  case True
  let ?n = "length (takeWhile p rest)"
  have below: "concat (map (rmatch Eol s) (map (\<lambda>k. (drop k rest, c k)) (rev [lo..<?n]))) = []"
  proof -
    have "\<And>k. k \<in> set (rev [lo..<?n]) \<Longrightarrow> rmatch Eol s (drop k rest, c k) = []"
    proof -
      fix k assume "k \<in> set (rev [lo..<?n])"
      then have "k < ?n" by simp
      from drop_below_run [OF this] obtain r where d: "drop k rest = (rest ! k) # r" "p (rest ! k)"
        by blast
      with nl have "rest ! k \<noteq> CHR 0x0A" by auto
      with d(1) show "rmatch Eol s (drop k rest, c k) = []" by simp
    qed
    then show ?thesis by (simp add: concat_map_Nil o_def)
  qed
  have top: "rev [lo..<Suc ?n] = ?n # rev [lo..<?n]" using True by simp
  show ?thesis unfolding top using True below by simp
qed


lemma branch_char_newline: "\<not> branch_char (CHR 0x0A)"
  by (simp add: branch_char_def is_word_def is_ascii_alpha_def is_digit_def)

text \<open>The optional branch and the end, from a state that stands before a \<^verbatim>\<open>#\<close>.\<close>

lemma branch_tail_hash:
  "rmatch (Cat (Opt (Cat (Lit CHR ''#'') (Grp ''branch'' (Rep branch_char 1 None)))) Eol) s
     (CHR ''#'' # t, caps) =
   (if takeWhile branch_char t \<noteq> []
       \<and> (drop (length (takeWhile branch_char t)) t = []
            \<or> drop (length (takeWhile branch_char t)) t = [CHR 0x0A])
    then [(drop (length (takeWhile branch_char t)) t,
           (''branch'', takeWhile branch_char t) # caps)]
    else [])"
proof -
  let ?n = "length (takeWhile branch_char t)"
  have tk: "take ?n t = takeWhile branch_char t"
    by (metis takeWhile_eq_take)
  have "rmatch (Cat (Opt (Cat (Lit CHR ''#'') (Grp ''branch'' (Rep branch_char 1 None)))) Eol) s
     (CHR ''#'' # t, caps) =
     concat (map (rmatch Eol s)
       (map (\<lambda>k. (drop k t, (''branch'', take k t) # caps)) (rev [1..<Suc ?n])))"
    by (simp add: rmatch_Grp_Rep del: rmatch.simps(8) rmatch.simps(5) upt_Suc)
  also have "\<dots> = (if 1 \<le> ?n \<and> (drop ?n t = [] \<or> drop ?n t = [CHR 0x0A])
          then [(drop ?n t, (''branch'', take ?n t) # caps)] else [])"
    by (rule Rep_then_Eol [of branch_char, OF branch_char_newline])
  finally show ?thesis unfolding tk by (simp add: Suc_le_eq)
qed

text \<open>The same from a state that does not stand before a \<^verbatim>\<open>#\<close>: only \<^verbatim>\<open>$\<close> is left.\<close>

lemma branch_tail_other:
  assumes "r = [] \<or> hd r \<noteq> CHR ''#''"
  shows "rmatch (Cat (Opt (Cat (Lit CHR ''#'') (Grp ''branch'' (Rep branch_char 1 None)))) Eol) s
           (r, caps) = (if r = [] \<or> r = [CHR 0x0A] then [(r, caps)] else [])"
  using assms by (cases r) auto


text \<open>
  \<^verbatim>\<open>RE_REPOSITORY.match\<close> in closed form: the url is the longest prefix without
  \<^verbatim>\<open>#\<close>; when a \<^verbatim>\<open>#\<close> follows, the branch is the longest run of branch characters
  after it, which must end the string or leave one line feed.
\<close>

lemma re_match_RE_REPOSITORY:
  "re_match RE_REPOSITORY s =
     (let url = takeWhile not_hash s; tail = drop (length url) s
      in if url = [] then None
         else case tail of
                [] \<Rightarrow> Some [(''url'', url)]
              | _ # t \<Rightarrow>
                  (let branch = takeWhile branch_char t; e = drop (length branch) t
                   in if branch \<noteq> [] \<and> (e = [] \<or> e = [CHR 0x0A])
                      then Some [(''branch'', branch), (''url'', url)] else None))"
proof -
  define Y where "Y = Cat (Opt (Cat (Lit CHR ''#'') (Grp ''branch'' (Rep branch_char 1 None)))) Eol"
  define u where "u = takeWhile not_hash s"
  define n where "n = length u"
  define t where "t = drop n s"
  define F where "F = (\<lambda>k. rmatch Y s (drop k s, [(''url'', take k s)]))"
  have re: "RE_REPOSITORY = Cat Bol (Cat (Grp ''url'' (Rep not_hash 1 None)) Y)"
    by (simp add: RE_REPOSITORY_def Y_def)
  have L: "rmatch RE_REPOSITORY s (s, []) = concat (map F (rev [1..<Suc n]))"
    unfolding re F_def n_def u_def
    by (simp add: rmatch_Grp_Rep o_def del: rmatch.simps(8) rmatch.simps(5) upt_Suc)
  have n_le: "n \<le> length s" unfolding n_def u_def by (rule length_takeWhile_le)
  have tk: "take n s = u" unfolding n_def u_def by (metis takeWhile_eq_take)
  have t_dw: "t = dropWhile not_hash s" unfolding t_def n_def u_def by (simp add: dropWhile_eq_drop)
  have t_hd: "t = [] \<or> hd t = CHR ''#''"
    unfolding t_dw using hd_dropWhile [of not_hash s] by (auto simp: not_hash_def)
  show ?thesis
  proof (cases "u = []")
    case True
    then have "n = 0" by (simp add: n_def)
    then have "rmatch RE_REPOSITORY s (s, []) = []" unfolding L by simp
    then show ?thesis using True by (simp add: re_match_def u_def [symmetric])
  next
    case False
    then have n1: "1 \<le> n" by (simp add: n_def Suc_le_eq)
    have top: "rev [1..<Suc n] = n # rev [1..<n]" using n1 by simp
    have L2: "rmatch RE_REPOSITORY s (s, []) = F n @ concat (map F (rev [1..<n]))"
      unfolding L top by simp
    have Fn: "F n = rmatch Y s (t, [(''url'', u)])"
      by (simp add: F_def tk t_def)
    show ?thesis
    proof (cases t)
      case Nil
      then have "F n = [([], [(''url'', u)])]"
        unfolding Fn Y_def by (simp add: branch_tail_other)
      then have "re_match RE_REPOSITORY s = Some [(''url'', u)]"
        unfolding re_match_def L2 by simp
      then show ?thesis
        using False Nil by (simp add: Let_def u_def [symmetric] n_def [symmetric] t_def [symmetric])
    next
      case (Cons c t')
      with t_hd have c: "c = CHR ''#''" by simp
      let ?b = "takeWhile branch_char t'"
      let ?e = "drop (length ?b) t'"
      have FnC: "F n = (if ?b \<noteq> [] \<and> (?e = [] \<or> ?e = [CHR 0x0A])
                         then [(?e, [(''branch'', ?b), (''url'', u)])] else [])"
        unfolding Fn Y_def Cons c by (rule branch_tail_hash)
      have below: "concat (map F (rev [1..<n])) = []"
      proof (rule concat_map_Nil)
        fix k assume "k \<in> set (rev [1..<n])"
        then have k: "1 \<le> k" "k < n" by auto
        from drop_below_run [of k not_hash s] k(2)
        obtain r where d: "drop k s = (s ! k) # r" "not_hash (s ! k)"
          unfolding n_def u_def by blast
        have "length (drop k s) = (n - k) + length t"
          using k(2) n_le by (simp add: t_def)
        then have len2: "2 \<le> length s - k" using k(2) Cons by simp
        have ne: "drop k s \<noteq> [CHR 0x0A]"
        proof
          assume "drop k s = [CHR 0x0A]"
          then have "length (drop k s) = length [CHR 0x0A]" by (rule arg_cong)
          with len2 show False by simp
        qed
        have "rmatch Y s (drop k s, [(''url'', take k s)]) =
                (if drop k s = [] \<or> drop k s = [CHR 0x0A]
                 then [(drop k s, [(''url'', take k s)])] else [])"
          unfolding Y_def by (rule branch_tail_other) (use d in \<open>simp add: not_hash_def\<close>)
        then show "F k = []" unfolding F_def using ne d(1) by simp
      qed
      have "re_match RE_REPOSITORY s =
              (if ?b \<noteq> [] \<and> (?e = [] \<or> ?e = [CHR 0x0A])
               then Some [(''branch'', ?b), (''url'', u)] else None)"
        unfolding re_match_def L2 below FnC by simp
      then show ?thesis
        using False Cons by (simp add: Let_def u_def [symmetric] n_def [symmetric] t_def [symmetric])
    qed
  qed
qed


lemma not_hash_fun: "(\<lambda>c. c \<noteq> CHR ''#'') = not_hash"
  by (simp add: fun_eq_iff not_hash_def)

lemma re_match_url:
  assumes "re_match RE_REPOSITORY s = Some data"
  shows "group data ''url'' = Some (takeWhile not_hash s)"
  using assms unfolding re_match_RE_REPOSITORY Let_def group_def
  by (auto split: if_splits list.splits)

lemma takeWhile_drop_id: "xs = takeWhile p xs @ drop (length (takeWhile p xs)) xs"
  by (metis takeWhile_dropWhile_id dropWhile_eq_drop)

lemma takeWhile_all: "(drop (length (takeWhile p t)) t = []) = list_all p t"
proof
  assume "drop (length (takeWhile p t)) t = []"
  then have "dropWhile p t = []" by (simp add: dropWhile_eq_drop)
  then show "list_all p t" by (simp add: list_all_iff)
next
  assume "list_all p t"
  then have "takeWhile p t = t" by (simp add: list_all_iff)
  then have "drop (length (takeWhile p t)) t = drop (length t) t" by (rule arg_cong)
  then show "drop (length (takeWhile p t)) t = []" by simp
qed

text \<open>
  On a string that does not end in a line feed, the pattern matches exactly the form
  \<^verbatim>\<open><url>[#<branch>]\<close>.
\<close>

lemma re_match_spec_repository:
  assumes "s = [] \<or> last s \<noteq> CHR 0x0A"
  shows "(re_match RE_REPOSITORY s \<noteq> None) = spec_repository s"
proof -
  define u where "u = takeWhile not_hash s"
  define tail where "tail = drop (length u) s"
  have s: "s = u @ tail" unfolding tail_def u_def by (rule takeWhile_drop_id)
  have spec: "spec_repository s =
      (u \<noteq> [] \<and> (tail = [] \<or> (tl tail \<noteq> [] \<and> list_all branch_char (tl tail))))"
    by (simp add: spec_repository_def not_hash_fun Let_def u_def tail_def)
  show ?thesis
  proof (cases "u = []")
    case True
    then show ?thesis unfolding spec re_match_RE_REPOSITORY Let_def u_def [symmetric] by simp
  next
    case False
    show ?thesis
    proof (cases tail)
      case Nil
      then show ?thesis
        unfolding spec re_match_RE_REPOSITORY Let_def u_def [symmetric] tail_def [symmetric]
        using False by simp
    next
      case (Cons c t)
      let ?b = "takeWhile branch_char t"
      let ?e = "drop (length ?b) t"
      have t: "t = ?b @ ?e" by (rule takeWhile_drop_id)
      have e: "?e \<noteq> [CHR 0x0A]"
      proof
        assume "?e = [CHR 0x0A]"
        with t have "t = ?b @ [CHR 0x0A]" by simp
        then have "s = (u @ c # ?b) @ [CHR 0x0A]" using s Cons by simp
        then have "s \<noteq> []" "last s = CHR 0x0A" by (simp_all del: append_assoc)
        with assms show False by simp
      qed
      have all: "(?e = []) = list_all branch_char t" by (rule takeWhile_all)
      have b: "?e = [] \<Longrightarrow> (?b \<noteq> []) = (t \<noteq> [])" by (metis t append_Nil2)
      have "(re_match RE_REPOSITORY s \<noteq> None) = (?b \<noteq> [] \<and> ?e = [])"
        unfolding re_match_RE_REPOSITORY Let_def u_def [symmetric] tail_def [symmetric]
        using False Cons e by simp
      also have "\<dots> = (t \<noteq> [] \<and> list_all branch_char t)"
        using b all by blast
      finally show ?thesis unfolding spec using False Cons by simp
    qed
  qed
qed

lemma validate_repository_match:
  "(validate_repository (VStr s) = Inr (VStr s)) =
     (re_match RE_REPOSITORY s \<noteq> None
      \<and> vol_Url (VStr (takeWhile not_hash s)) = Inr (VStr (takeWhile not_hash s)))"
proof (cases "re_match RE_REPOSITORY s")
  case None
  then show ?thesis by (simp add: validate_repository_def)
next
  case (Some data)
  from re_match_url [OF Some] show ?thesis
    using vol_Url_cases [of "VStr (takeWhile not_hash s)"]
    by (auto simp: validate_repository_def Some)
qed


lemma repository_line_feed:
  "validate_repository (VStr (''https://github.com/org/repo#dev'' @ [CHR 0x0A])) =
     Inr (VStr (''https://github.com/org/repo#dev'' @ [CHR 0x0A]))"
  "\<not> spec_repository (''https://github.com/org/repo#dev'' @ [CHR 0x0A])"
  "re_match RE_REPOSITORY (''https://github.com/org/repo#dev'' @ [CHR 0x0A]) =
     Some [(''branch'', ''dev''), (''url'', ''https://github.com/org/repo'')]"
  by (simp_all add: validate_repository_def re_defs vol_Url_examples spec_repository_def)

text \<open>
  Claim C5. On every string that does not end in a line feed the claim holds:
  \<^verbatim>\<open>validate_repository\<close> returns the string unchanged exactly when it has the form
  \<^verbatim>\<open><url>[#<branch>]\<close> and its url part, the text before the first \<^verbatim>\<open>#\<close>, passes
  \<^verbatim>\<open>vol.Url()\<close>. The code departs from the claim after a branch only: \<^verbatim>\<open>$\<close> lets
  one line feed follow it, so \<^verbatim>\<open>https://github.com/org/repo#dev\<close> with a line feed
  appended is accepted, with the branch \<^verbatim>\<open>dev\<close>, although it is not of the form.
\<close>

theorem validate_repository_line_feed:
  "validate_repository (VStr (''https://github.com/org/repo#dev'' @ [CHR 0x0A])) =
     Inr (VStr (''https://github.com/org/repo#dev'' @ [CHR 0x0A]))
   \<and> \<not> spec_repository (''https://github.com/org/repo#dev'' @ [CHR 0x0A])
   \<and> ((s = [] \<or> last s \<noteq> CHR 0x0A) \<longrightarrow>
        (validate_repository (VStr s) = Inr (VStr s)) =
          (spec_repository s
           \<and> vol_Url (VStr (takeWhile not_hash s)) = Inr (VStr (takeWhile not_hash s))))"
proof (intro conjI impI)
  assume "s = [] \<or> last s \<noteq> CHR 0x0A"
  then have "(re_match RE_REPOSITORY s \<noteq> None) = spec_repository s"
    by (rule re_match_spec_repository)
  then show "(validate_repository (VStr s) = Inr (VStr s)) =
          (spec_repository s
           \<and> vol_Url (VStr (takeWhile not_hash s)) = Inr (VStr (takeWhile not_hash s)))"
    unfolding validate_repository_match by simp
qed (rule repository_line_feed)+

theorem validate_repository_line_feed_witness:
  "validate_repository (VStr ''https://github.com/org/repo#dev'') =
     Inr (VStr ''https://github.com/org/repo#dev'')
   \<and> spec_repository ''https://github.com/org/repo#dev''
   \<and> validate_repository (VStr ''https://github.com/org/repo'') =
       Inr (VStr ''https://github.com/org/repo'')
   \<and> spec_repository ''https://github.com/org/repo''
   \<and> validate_repository (VStr ''not a url#dev'') = Inl UrlInvalid
   \<and> spec_repository ''not a url#dev''
   \<and> vol_Url (VStr (takeWhile not_hash ''not a url#dev'')) = Inl UrlInvalid"
  using validate_repository_line_feed [of "''https://github.com/org/repo#dev''"]
    validate_repository_line_feed [of "''https://github.com/org/repo''"]
    validate_repository_line_feed [of "''not a url#dev''"]
  by (simp add: validate_repository_examples vol_Url_examples spec_repository_def
      branch_char_def not_hash_def is_word_def is_ascii_alpha_def is_digit_def)

subsection \<open>Keys that no field declares\<close>

text \<open>Removing the pairs whose key is outside a set of keys commutes with the dictionary operations.\<close>

lemma restrict_keys_simps:
  "restrict_keys K [] = []"
  "restrict_keys K ((k, v) # d) = (if k \<in> K then (k, v) # restrict_keys K d else restrict_keys K d)"
  by (simp_all add: restrict_keys_def)

lemma restrict_keys_dict_set:
  "restrict_keys K (dict_set d k v) =
     (if k \<in> K then dict_set (restrict_keys K d) k v else restrict_keys K d)"
  by (induction d) (auto simp: restrict_keys_simps)

lemma restrict_keys_foldl:
  "restrict_keys K (foldl (\<lambda>d (k, v). dict_set d k v) acc items) =
     foldl (\<lambda>d (k, v). dict_set d k v) (restrict_keys K acc) (restrict_keys K items)"
proof (induction items arbitrary: acc)
  case Nil
  show ?case by (simp add: restrict_keys_simps)
next
  case (Cons kv items)
  obtain k v where kv: "kv = (k, v)" by (cases kv)
  show ?case unfolding kv by (simp add: Cons restrict_keys_simps restrict_keys_dict_set)
qed

lemma restrict_keys_dict_of_items:
  "dict_of_items (restrict_keys K items) = restrict_keys K (dict_of_items items)"
  by (simp add: dict_of_items_def restrict_keys_foldl restrict_keys_simps)

lemma restrict_keys_keys: "fst ` set (restrict_keys K d) = fst ` set d \<inter> K"
  by (auto simp: restrict_keys_def rev_image_eqI)

lemma insert_defaults_restrict:
  assumes "fkey ` set fs \<subseteq> K"
  shows "insert_defaults fs (restrict_keys K d) s =
           (restrict_keys K (fst (insert_defaults fs d s)), snd (insert_defaults fs d s))"
  using assms
proof (induction fs arbitrary: d s)
  case Nil
  show ?case by simp
next
  case (Cons f fs)
  then have k: "fkey f \<in> K" and fs: "fkey ` set fs \<subseteq> K" by auto
  have mem: "(fkey f \<in> fst ` set (restrict_keys K d)) = (fkey f \<in> fst ` set d)"
    using k by (simp add: restrict_keys_keys)
  have set: "dict_set (restrict_keys K d) (fkey f) v = restrict_keys K (dict_set d (fkey f) v)" for v
    using k by (simp add: restrict_keys_dict_set)
  show ?case
    by (simp add: mem set Cons.IH [OF fs] split: default.splits prod.splits)
qed

lemma validate_items_restrict:
  "validate_items REMOVE_EXTRA fs (restrict_keys (fkey ` set fs) d) out errors s =
     validate_items REMOVE_EXTRA fs d out errors s"
proof (induction d arbitrary: out errors s)
  case Nil
  show ?case by (simp add: restrict_keys_simps)
next
  case (Cons kv d)
  obtain k v where kv: "kv = (k, v)" by (cases kv)
  show ?case
  proof (cases "k \<in> fkey ` set fs")
    case True
    then show ?thesis unfolding kv
      by (simp add: restrict_keys_simps Cons split: option.splits prod.splits sum.splits error.splits)
  next
    case False
    then have "find (\<lambda>f. fkey f = k) fs = None" by (auto simp: find_None_iff)
    with False show ?thesis unfolding kv by (simp add: restrict_keys_simps Cons)
  qed
qed

lemma missing_required_restrict:
  "missing_required fs (restrict_keys (fkey ` set fs) d) = missing_required fs d"
  unfolding missing_required_def
  by (rule arg_cong [where f = "map _"], rule filter_cong) (auto simp: restrict_keys_keys)

text \<open>
  Under \<^verbatim>\<open>REMOVE_EXTRA\<close> the result of a mapping schema does not depend on the pairs of
  the input whose key no field declares.
\<close>

lemma Schema_REMOVE_EXTRA_frame:
  "Schema fs REMOVE_EXTRA (VDict items) s =
     Schema fs REMOVE_EXTRA (VDict (restrict_keys (fkey ` set fs) items)) s"
proof -
  let ?K = "fkey ` set fs"
  obtain d s1 where d: "insert_defaults fs (dict_of_items items) s = (d, s1)" by (cases "insert_defaults fs (dict_of_items items) s")
  have d': "insert_defaults fs (dict_of_items (restrict_keys ?K items)) s = (restrict_keys ?K d, s1)"
    unfolding restrict_keys_dict_of_items
    using insert_defaults_restrict [of fs ?K "dict_of_items items" s] d by simp
  show ?thesis
    unfolding Schema_def
    by (simp add: d d' validate_items_restrict missing_required_restrict
        split: prod.splits sum.splits)
qed

text \<open>The keys of the output are keys that a field declares.\<close>

lemma validate_items_keys:
  assumes "validate_items REMOVE_EXTRA fs d out errors s = (Inr (out', errors'), s')"
  shows "fst ` set out' \<subseteq> fst ` set out \<union> fkey ` set fs"
  using assms
proof (induction d arbitrary: out errors s)
  case Nil
  then show ?case by auto
next
  case (Cons kv d)
  obtain k v where kv: "kv = (k, v)" by (cases kv)
  show ?case
  proof (cases "find (\<lambda>f. fkey f = k) fs")
    case None
    with Cons.prems have "validate_items REMOVE_EXTRA fs d out errors s = (Inr (out', errors'), s')"
      unfolding kv by simp
    then show ?thesis by (rule Cons.IH)
  next
    case (Some f)
    then have k: "k \<in> fkey ` set fs" by (auto simp: find_Some_iff)
    obtain r s1 where r: "fschema f v s = (r, s1)" by (cases "fschema f v s")
    show ?thesis
    proof (cases r)
      case (Inr cval)
      with Cons.prems Some r
      have "validate_items REMOVE_EXTRA fs d (dict_set out k cval) errors s1 = (Inr (out', errors'), s')"
        unfolding kv by simp
      from Cons.IH [OF this] k show ?thesis by (auto simp: dict_set_keys)
    next
      case (Inl e)
      with Cons.prems Some r
      obtain es where "validate_items REMOVE_EXTRA fs d out es s1 = (Inr (out', errors'), s')"
        unfolding kv by (cases e) auto
      then show ?thesis by (rule Cons.IH)
    qed
  qed
qed

lemma Schema_REMOVE_EXTRA_keys:
  assumes "Schema fs REMOVE_EXTRA (VDict items) s = (Inr (VDict out), s')"
  shows "fst ` set out \<subseteq> fkey ` set fs"
proof -
  obtain d s1 where d: "insert_defaults fs (dict_of_items items) s = (d, s1)"
    by (cases "insert_defaults fs (dict_of_items items) s")
  obtain r s2 where r: "validate_items REMOVE_EXTRA fs d [] [] s1 = (r, s2)"
    by (cases "validate_items REMOVE_EXTRA fs d [] [] s1")
  from assms obtain errors where "r = Inr (out, errors)"
    unfolding Schema_def by (cases r) (auto simp: d r split: if_splits prod.splits)
  with r have "validate_items REMOVE_EXTRA fs d [] [] s1 = (Inr (out, errors), s2)" by simp
  from validate_items_keys [OF this] show ?thesis by simp
qed


subsection \<open>The defaults of \<^verbatim>\<open>SCHEMA_HASS_CONFIG\<close>\<close>

lemma unat_nibble: "unat (and (x :: 128 word) 0xf) < 16"
proof -
  have "and x 0xf \<le> 0xf" by (rule word_and_le1)
  then have "unat (and x 0xf) \<le> unat (0xf :: 128 word)" by (simp add: word_le_nat_alt)
  then show ?thesis by simp
qed

lemma hexdigit_lower_hex: "n < 16 \<Longrightarrow> is_lower_hex (hexdigit n)"
  by (auto simp: hexdigit_def is_lower_hex_def is_digit_def)

lemma hex32_shape: "length (hex32 w) = 32" "list_all is_lower_hex (hex32 w)"
  by (simp_all add: hex32_def list_all_iff hexdigit_lower_hex unat_nibble)

lemma uuid_match_hex:
  assumes "length x = 32" "list_all is_lower_hex x"
  shows "uuid_match (VStr x) = Inr (VStr x)"
proof -
  from assms(2) have "takeWhile is_lower_hex x = x" by (simp add: list_all_iff)
  then have "length (takeWhile is_lower_hex x) = length x" by (rule arg_cong)
  then have run: "length (takeWhile is_lower_hex x) = 32" unfolding assms(1) .
  have "rmatch (Cat Bol (Cat (Rep is_lower_hex 32 (Some 32)) Eol)) x (x, []) = [([], [])]"
    by (simp add: run assms(1))
  then show ?thesis by (simp add: uuid_match_def vol_Match_str re_match_def)
qed

lemma uuid_match_uuid4: "uuid_match (VStr (uuid4_hex w)) = Inr (VStr (uuid4_hex w))"
  unfolding uuid4_hex_def by (rule uuid_match_hex) (rule hex32_shape)+

lemma hass_defaults_valid:
  "vol_Boolean (VBool b) = Inr (VBool b)"
  "hass_wait_boot (VInt 600) = Inr (VInt 600)"
  "vol_Maybe f VNone = Inr VNone"
  unfolding hass_wait_boot_def int_range_pipeline
  by (simp_all add: vol_Boolean_def vol_Maybe_def)

lemma HASS_CONFIG_keys:
  "fkey ` set (HASS_CONFIG_fields e) =
     {ATTR_UUID, ATTR_VERSION, ATTR_IMAGE, ATTR_ACCESS_TOKEN, ATTR_BOOT, ATTR_PORT,
      ATTR_REFRESH_TOKEN, ATTR_SSL, ATTR_WATCHDOG, ATTR_WAIT_BOOT, ATTR_AUDIO_OUTPUT,
      ATTR_AUDIO_INPUT}"
  by (simp add: HASS_CONFIG_fields_def)

text \<open>
  \<^verbatim>\<open>SCHEMA_HASS_CONFIG\<close> on an input that holds a valid port and nothing else: the port
  as coerced, then the declared defaults.
\<close>

lemma hass_port_only:
  assumes "network_port v = Inr c"
  shows "SCHEMA_HASS_CONFIG e (VDict [(ATTR_PORT, v)]) n =
     (Inr (VDict [(ATTR_PORT, c), (ATTR_UUID, VStr (uuid4_hex (urandom16 e n))),
                  (ATTR_BOOT, VBool True), (ATTR_SSL, VBool False), (ATTR_WATCHDOG, VBool True),
                  (ATTR_WAIT_BOOT, VInt 600), (ATTR_AUDIO_OUTPUT, VNone),
                  (ATTR_AUDIO_INPUT, VNone)]), Suc n)"
  by (simp add: SCHEMA_HASS_CONFIG_def HASS_CONFIG_fields_def Schema_def dict_of_items_def
      ATTR_defs stateless_def uuid_default_def missing_required_def assms uuid_match_uuid4
      hass_defaults_valid)


text \<open>
  Claim C8. Under \<^verbatim>\<open>REMOVE_EXTRA\<close> the keys that no field declares neither fail nor
  show: for every list of fields and every input, the result is the result for the input
  without its undeclared pairs, and the keys of a normalized output are declared keys.
  For \<^verbatim>\<open>SCHEMA_HASS_CONFIG\<close>, an input with a valid port and one undeclared key
  is normalized to the coerced port and the declared defaults, without the undeclared key.
\<close>

theorem remove_extra_frame:
  "Schema fs REMOVE_EXTRA (VDict items) s =
     Schema fs REMOVE_EXTRA (VDict (filter (\<lambda>(k, v). k \<in> fkey ` set fs) items)) s
   \<and> (\<forall>out s'. Schema fs REMOVE_EXTRA (VDict items) s = (Inr (VDict out), s')
        \<longrightarrow> fst ` set out \<subseteq> fkey ` set fs)
   \<and> (network_port v = Inr c \<and> k \<notin> fkey ` set (HASS_CONFIG_fields e) \<longrightarrow>
        SCHEMA_HASS_CONFIG e (VDict [(ATTR_PORT, v), (k, x)]) n =
          (Inr (VDict [(ATTR_PORT, c), (ATTR_UUID, VStr (uuid4_hex (urandom16 e n))),
                       (ATTR_BOOT, VBool True), (ATTR_SSL, VBool False),
                       (ATTR_WATCHDOG, VBool True), (ATTR_WAIT_BOOT, VInt 600),
                       (ATTR_AUDIO_OUTPUT, VNone), (ATTR_AUDIO_INPUT, VNone)]), Suc n))"
proof (intro conjI allI impI)
  show "Schema fs REMOVE_EXTRA (VDict items) s =
     Schema fs REMOVE_EXTRA (VDict (filter (\<lambda>(k, v). k \<in> fkey ` set fs) items)) s"
    using Schema_REMOVE_EXTRA_frame [of fs items s] by (simp add: restrict_keys_def)
next
  fix out s'
  assume "Schema fs REMOVE_EXTRA (VDict items) s = (Inr (VDict out), s')"
  then show "fst ` set out \<subseteq> fkey ` set fs" by (rule Schema_REMOVE_EXTRA_keys)
next
  assume a: "network_port v = Inr c \<and> k \<notin> fkey ` set (HASS_CONFIG_fields e)"
  have port: "ATTR_PORT \<in> fkey ` set (HASS_CONFIG_fields e)" by (simp add: HASS_CONFIG_keys)
  have "SCHEMA_HASS_CONFIG e (VDict [(ATTR_PORT, v), (k, x)]) n =
          SCHEMA_HASS_CONFIG e (VDict [(ATTR_PORT, v)]) n"
    unfolding SCHEMA_HASS_CONFIG_def
    using Schema_REMOVE_EXTRA_frame [of "HASS_CONFIG_fields e" "[(ATTR_PORT, v), (k, x)]" n] a port
    by (simp add: restrict_keys_simps)
  also have "\<dots> = (Inr (VDict [(ATTR_PORT, c), (ATTR_UUID, VStr (uuid4_hex (urandom16 e n))),
                       (ATTR_BOOT, VBool True), (ATTR_SSL, VBool False),
                       (ATTR_WATCHDOG, VBool True), (ATTR_WAIT_BOOT, VInt 600),
                       (ATTR_AUDIO_OUTPUT, VNone), (ATTR_AUDIO_INPUT, VNone)]), Suc n)"
    using a by (simp add: hass_port_only)
  finally show "SCHEMA_HASS_CONFIG e (VDict [(ATTR_PORT, v), (k, x)]) n =
          (Inr (VDict [(ATTR_PORT, c), (ATTR_UUID, VStr (uuid4_hex (urandom16 e n))),
                       (ATTR_BOOT, VBool True), (ATTR_SSL, VBool False),
                       (ATTR_WATCHDOG, VBool True), (ATTR_WAIT_BOOT, VInt 600),
                       (ATTR_AUDIO_OUTPUT, VNone), (ATTR_AUDIO_INPUT, VNone)]), Suc n)" .
qed

lemma network_port_8123: "network_port (VStr ''8123'') = Inr (VInt 8123)"
  unfolding network_port_def int_range_pipeline by (simp add: int_of_str_defs)

theorem remove_extra_frame_witness:
  "SCHEMA_HASS_CONFIG env0 (VDict [(''port'', VStr ''8123''), (''extra'', VInt 1)]) 0 =
     (Inr (VDict [(''port'', VInt 8123), (''uuid'', VStr (uuid4_hex 0)),
                  (''boot'', VBool True), (''ssl'', VBool False), (''watchdog'', VBool True),
                  (''wait_boot'', VInt 600), (''audio_output'', VNone),
                  (''audio_input'', VNone)]), 1)
   \<and> SCHEMA_HASS_CONFIG env0 (VDict [(''port'', VStr ''8123''), (''extra'', VInt 1)]) 0 =
       SCHEMA_HASS_CONFIG env0 (VDict [(''port'', VStr ''8123'')]) 0
   \<and> ''extra'' \<notin> fkey ` set (HASS_CONFIG_fields env0)"
  using remove_extra_frame [of "HASS_CONFIG_fields env0"
      "[(''port'', VStr ''8123''), (''extra'', VInt 1)]" 0 "VStr ''8123''" "VInt 8123"
      "''extra''" env0 "VInt 1" 0]
  by (auto simp: network_port_8123 HASS_CONFIG_keys ATTR_defs env0_def SCHEMA_HASS_CONFIG_def)

subsection \<open>Callable defaults\<close>



















subsection \<open>\<^verbatim>\<open>uuid.uuid4().hex\<close>\<close>











subsection \<open>The \<^verbatim>\<open>uuid\<close> field of \<^verbatim>\<open>SCHEMA_HASS_CONFIG\<close>\<close>











end
